theory Spec2Isabelle
  imports Main "HOL-Library.Sublist"
begin

section \<open>Python values, exceptions and dictionaries\<close>

text \<open>
  The step implementations of \<^verbatim>\<open>tck_step_implementations.py\<close> work on JSON-like Python
  values. A Python \<^verbatim>\<open>str\<close> is represented by its UTF-8 encoding (an Isabelle string, one
  character per byte), so \<^verbatim>\<open>s.encode("utf-8")\<close> and \<^verbatim>\<open>bytes(s, "utf-8")\<close> are the identity;
  a \<^verbatim>\<open>bytes\<close> object is the list of its bytes. A \<^verbatim>\<open>dict\<close> is an association list with
  distinct keys in insertion order. A float is carried as its IEEE-754 bit pattern and
  never computed with. \<open>PObject\<close> stands for an object of any other type (a bound method,
  a descriptor), known by a name only.

  Every exception the code can raise is a value of \<open>error\<close>; \<^verbatim>\<open>binascii.Error\<close>,
  \<^verbatim>\<open>UnicodeDecodeError\<close> and \<^verbatim>\<open>json.JSONDecodeError\<close> are subclasses of
  \<^verbatim>\<open>ValueError\<close> in Python, which \<open>isinstance_ValueError\<close> records.
\<close>

datatype error =
    PyException
  | ValueError
  | TypeError
  | KeyError
  | IndexError
  | AttributeError
  | AssertionError
  | BinasciiError
  | UnicodeDecodeError
  | JSONDecodeError
  | UnboundLocalError
  | OverflowError
  | OtherError

fun isinstance_ValueError :: "error \<Rightarrow> bool" where
  "isinstance_ValueError ValueError = True"
| "isinstance_ValueError BinasciiError = True"
| "isinstance_ValueError UnicodeDecodeError = True"
| "isinstance_ValueError JSONDecodeError = True"
| "isinstance_ValueError _ = False"

datatype pyval =
    PNone
  | PBool bool
  | PInt int
  | PFloat nat
  | PStr string
  | PBytes string
  | PList "pyval list"
  | PDict "(string \<times> pyval) list"
  | PObject string

type_synonym pydict = "(string \<times> pyval) list"

fun is_dict :: "pyval \<Rightarrow> bool" where
  "is_dict (PDict d) = True"
| "is_dict _ = False"

text \<open>\<^verbatim>\<open>d[k] = v\<close>: an existing key keeps its position, a new key goes last.\<close>

fun dict_set :: "('k \<times> 'v) list \<Rightarrow> 'k \<Rightarrow> 'v \<Rightarrow> ('k \<times> 'v) list" where
  "dict_set [] k v = [(k, v)]"
| "dict_set ((k', v') # rest) k v =
     (if k' = k then (k, v) # rest else (k', v') # dict_set rest k v)"

text \<open>\<^verbatim>\<open>d.update(other)\<close>: the entries of \<open>other\<close> are stored in their order.\<close>

fun dict_update :: "('k \<times> 'v) list \<Rightarrow> ('k \<times> 'v) list \<Rightarrow> ('k \<times> 'v) list" where
  "dict_update d [] = d"
| "dict_update d ((k, v) # other) = dict_update (dict_set d k v) other"

definition dict_keys :: "('k \<times> 'v) list \<Rightarrow> 'k set" where
  "dict_keys d = fst ` set d"

text \<open>\<^verbatim>\<open>value[key]\<close> for a string key: only a dict can be subscripted by a string.\<close>

fun subscript :: "pyval \<Rightarrow> string \<Rightarrow> error + pyval" where
  "subscript (PDict d) key = (case map_of d key of None \<Rightarrow> Inl KeyError | Some v \<Rightarrow> Inr v)"
| "subscript _ key = Inl TypeError"

section \<open>String operations of the standard library\<close>

text \<open>
  \<^verbatim>\<open>s.split(sep)\<close> for a non-empty separator: the separator is searched from the left,
  occurrences do not overlap, and the result always has at least one element. Every
  call site of the source passes a non-empty constant separator.
\<close>

fun py_split :: "'a list \<Rightarrow> 'a list \<Rightarrow> 'a list list" where
  "py_split sep [] = [[]]"
| "py_split sep (c # cs) =
     (if sep \<noteq> [] \<and> prefix sep (c # cs)
      then [] # py_split sep (drop (length sep - 1) cs)
      else (case py_split sep cs of
              [] \<Rightarrow> [[c]]
            | w # ws \<Rightarrow> (c # w) # ws))"

text \<open>\<^verbatim>\<open>s.replace(old, new)\<close> for a non-empty \<open>old\<close>, as at every call site.\<close>

fun py_replace :: "'a list \<Rightarrow> 'a list \<Rightarrow> 'a list \<Rightarrow> 'a list" where
  "py_replace old new [] = []"
| "py_replace old new (c # cs) =
     (if old \<noteq> [] \<and> prefix old (c # cs)
      then new @ py_replace old new (drop (length old - 1) cs)
      else c # py_replace old new cs)"

text \<open>\<^verbatim>\<open>xs[1]\<close> on the result of a split: \<^verbatim>\<open>IndexError\<close> when there is no second element.\<close>

fun second :: "'a list \<Rightarrow> error + 'a" where
  "second (a # b # rest) = Inr b"
| "second _ = Inl IndexError"

section \<open>Path codec\<close>

text \<open>
  \<^verbatim>\<open>
  def access_nested_dict(dictionary, keys):
      if keys == "":
          return dictionary
      keys = keys.split(".")
      value = dictionary
      if isinstance(value, str):
          value = json.loads(value)
      for key in keys:
          value = value[key]
      return value
  \<close>
  \<^verbatim>\<open>json.loads\<close> is the standard library's decoder and is a parameter of the model.
\<close>

fun walk :: "pyval \<Rightarrow> string list \<Rightarrow> error + pyval" where
  "walk v [] = Inr v"
| "walk v (key # keys) =
     (case subscript v key of Inl e \<Rightarrow> Inl e | Inr v' \<Rightarrow> walk v' keys)"

definition access_nested_dict ::
  "(string \<Rightarrow> error + pyval) \<Rightarrow> pyval \<Rightarrow> string \<Rightarrow> error + pyval" where
  "access_nested_dict json_loads dictionary keys =
     (if keys = [] then Inr dictionary
      else case (case dictionary of PStr s \<Rightarrow> json_loads s | _ \<Rightarrow> Inr dictionary) of
             Inl e \<Rightarrow> Inl e
           | Inr v \<Rightarrow> walk v (py_split ''.'' keys))"

text \<open>
  \<^verbatim>\<open>
  def flatten_dict(nested_dict, parent_key="", sep="."):
      flattened = {}
      for k, v in nested_dict.items():
          new_key = parent_key + sep + k if parent_key else k
          if isinstance(v, dict):
              flattened.update(flatten_dict(v, new_key, sep=sep))
          else:
              flattened[new_key] = v
      return flattened
  \<close>
  No caller overrides \<^verbatim>\<open>sep\<close>. \<open>flatten_loop\<close> is the \<^verbatim>\<open>for\<close> loop with the dictionary
  built so far.
\<close>

function flatten_loop :: "pydict \<Rightarrow> string \<Rightarrow> pydict \<Rightarrow> pydict" where
  "flatten_loop [] parent_key flattened = flattened"
| "flatten_loop ((k, v) # items) parent_key flattened =
     (let new_key = (if parent_key \<noteq> [] then parent_key @ ''.'' @ k else k) in
      flatten_loop items parent_key
        (case v of
           PDict sub \<Rightarrow> dict_update flattened (flatten_loop sub new_key [])
         | _ \<Rightarrow> dict_set flattened new_key v))"
  by pat_completeness auto
termination
  by (relation "measure (\<lambda>(items, parent_key, flattened).
        size_list (size_prod (\<lambda>k. 0) size) items)") auto

definition flatten_dict :: "pydict \<Rightarrow> string \<Rightarrow> pydict" where
  "flatten_dict nested_dict parent_key = flatten_loop nested_dict parent_key []"

text \<open>
  \<^verbatim>\<open>
  def unflatten_dict(d, delimiter="."):
      unflattened = {}
      for key, value in d.items():
          parts = key.split(delimiter)
          temp = unflattened
          for part in parts[:-1]:
              if part not in temp:
                  temp[part] = {}
              temp = temp[part]
          temp[parts[-1]] = value
      return unflattened
  \<close>
  \<open>assign_path\<close> is the body of the outer loop for one key: the walk along
  \<^verbatim>\<open>parts[:-1]\<close> and the final assignment; \<open>descend\<close> is one round of the inner loop,
  giving the dict that \<^verbatim>\<open>temp\<close> is bound to next (a fresh \<^verbatim>\<open>{}\<close> when the part is new). When \<^verbatim>\<open>temp\<close> has become a value that is not a
  dict, each of \<^verbatim>\<open>part not in temp\<close>, \<^verbatim>\<open>temp[part] = {}\<close>, \<^verbatim>\<open>temp = temp[part]\<close> and
  \<^verbatim>\<open>temp[parts[-1]] = value\<close> ends in a \<^verbatim>\<open>TypeError\<close> for a string \<^verbatim>\<open>part\<close> (on a
  \<^verbatim>\<open>str\<close> or a list the membership test itself succeeds, and the subscript that follows
  raises). The model is value based: two payload entries that hold the same dict object
  are not mutated together.
\<close>

definition descend :: "pydict \<Rightarrow> string \<Rightarrow> error + pydict" where
  "descend temp part =
     (case map_of temp part of
        None \<Rightarrow> Inr []
      | Some (PDict sub) \<Rightarrow> Inr sub
      | Some _ \<Rightarrow> Inl TypeError)"

fun assign_path :: "pydict \<Rightarrow> string list \<Rightarrow> pyval \<Rightarrow> error + pydict" where
  "assign_path temp [] v = Inl IndexError"
| "assign_path temp [last_part] v = Inr (dict_set temp last_part v)"
| "assign_path temp (part # parts) v =
     (case descend temp part of
        Inl e \<Rightarrow> Inl e
      | Inr sub \<Rightarrow>
          (case assign_path sub parts v of
             Inl e \<Rightarrow> Inl e
           | Inr sub' \<Rightarrow> Inr (dict_set temp part (PDict sub'))))"

fun unflatten_loop :: "pydict \<Rightarrow> pydict \<Rightarrow> error + pydict" where
  "unflatten_loop [] unflattened = Inr unflattened"
| "unflatten_loop ((key, v) # items) unflattened =
     (case assign_path unflattened (py_split ''.'' key) v of
        Inl e \<Rightarrow> Inl e
      | Inr u \<Rightarrow> unflatten_loop items u)"

definition unflatten_dict :: "pydict \<Rightarrow> error + pydict" where
  "unflatten_dict d = unflatten_loop d []"

section \<open>Properties of \<open>unflatten_dict\<close>\<close>


lemma map_of_dict_set: "map_of (dict_set d k v) = (map_of d)(k \<mapsto> v)"
  by (induction d) (auto simp: fun_eq_iff)

lemma py_split_nonempty: "py_split sep s \<noteq> []"
  by (induction sep s rule: py_split.induct) (auto split: list.splits)

lemma py_split_single_append:
  "py_split [c] (a @ c # b) = py_split [c] a @ py_split [c] b"
proof (induction a)
  case Nil
  then show ?case by simp
next
  case (Cons x a)
  then show ?case
    using py_split_nonempty [of "[c]" a]
    by (cases "py_split [c] a") (auto split: list.splits)
qed














section \<open>Round trip of \<open>flatten_dict\<close> and \<open>unflatten_dict\<close>\<close>

text \<open>
  \<open>tree_ok n\<close>: at every level of the nested mapping the keys are distinct (as in any
  dict) and contain no separator character, and every nested mapping is non-empty.
  \<open>top_ok n\<close>: no key of the outermost level that holds a mapping is the empty string
  (\<^verbatim>\<open>parent_key + sep + k if parent_key else k\<close> drops an empty parent).
  \<open>paths n\<close> lists the leaves of \<open>n\<close> with their key paths, in insertion order;
  \<open>join\<close> is \<^verbatim>\<open>".".join\<close>; \<open>assign_all\<close> runs \<open>assign_path\<close> over a list of paths.
\<close>

function tree_ok :: "pydict \<Rightarrow> bool" where
  "tree_ok [] = True"
| "tree_ok ((k, v) # rest) =
     (CHR ''.'' \<notin> set k \<and> k \<notin> dict_keys rest \<and>
      (case v of PDict sub \<Rightarrow> sub \<noteq> [] \<and> tree_ok sub | _ \<Rightarrow> True) \<and>
      tree_ok rest)"
  by pat_completeness auto
termination
  by (relation "measure (size_list (size_prod (\<lambda>k. 0) size))") auto

definition top_ok :: "pydict \<Rightarrow> bool" where
  "top_ok n = (\<forall>(k, v) \<in> set n. is_dict v \<longrightarrow> k \<noteq> [])"

function paths :: "pydict \<Rightarrow> (string list \<times> pyval) list" where
  "paths [] = []"
| "paths ((k, v) # rest) =
     (case v of
        PDict sub \<Rightarrow> map (\<lambda>(p, x). (k # p, x)) (paths sub)
      | _ \<Rightarrow> [([k], v)]) @ paths rest"
  by pat_completeness auto
termination
  by (relation "measure (size_list (size_prod (\<lambda>k. 0) size))") auto

fun join :: "string list \<Rightarrow> string" where
  "join [] = []"
| "join [p] = p"
| "join (p # ps) = p @ ''.'' @ join ps"

definition pk :: "string \<Rightarrow> string \<Rightarrow> string" where
  "pk parent_key k = (if parent_key \<noteq> [] then parent_key @ ''.'' @ k else k)"

definition good_path :: "string list \<Rightarrow> bool" where
  "good_path p = (p \<noteq> [] \<and> (\<forall>s \<in> set p. CHR ''.'' \<notin> set s))"

fun assign_all :: "(string list \<times> pyval) list \<Rightarrow> pydict \<Rightarrow> error + pydict" where
  "assign_all [] u = Inr u"
| "assign_all ((p, x) # rest) u =
     (case assign_path u p x of Inl e \<Rightarrow> Inl e | Inr u' \<Rightarrow> assign_all rest u')"

lemma py_split_single_absent: "c \<notin> set s \<Longrightarrow> py_split [c] s = [s]"
  by (induction s) auto

lemma dict_set_fresh: "k \<notin> dict_keys d \<Longrightarrow> dict_set d k v = d @ [(k, v)]"
  by (induction d) (auto simp: dict_keys_def)

lemma dict_set_same: "map_of d k = Some v \<Longrightarrow> dict_set d k v = d"
  by (induction d) (auto split: if_splits)

lemma dict_set_twice: "dict_set (dict_set d k v) k w = dict_set d k w"
  by (induction d) auto

lemma dict_update_fresh:
  "distinct (map fst xs) \<Longrightarrow> dict_keys d \<inter> dict_keys xs = {} \<Longrightarrow> dict_update d xs = d @ xs"
proof (induction xs arbitrary: d)
  case Nil
  then show ?case by simp
next
  case (Cons kv xs)
  obtain k v where kv: "kv = (k, v)" by (cases kv)
  from Cons.prems kv have fresh: "k \<notin> dict_keys d"
    by (auto simp: dict_keys_def)
  from Cons.prems kv have "dict_keys (d @ [(k, v)]) \<inter> dict_keys xs = {}"
    by (auto simp: dict_keys_def)
  with Cons.IH [of "d @ [(k, v)]"] Cons.prems(1) kv fresh show ?case
    by (simp add: dict_set_fresh)
qed

lemma join_Cons: "ps \<noteq> [] \<Longrightarrow> join (p # ps) = p @ ''.'' @ join ps"
  by (cases ps) auto

lemma split_join: "good_path p \<Longrightarrow> py_split ''.'' (join p) = p"
proof (induction p rule: join.induct)
  case 1
  then show ?case by (simp add: good_path_def)
next
  case (2 p)
  then show ?case by (simp add: good_path_def py_split_single_absent)
next
  case (3 p q ps)
  then have g: "good_path (q # ps)" and p: "CHR ''.'' \<notin> set p"
    by (auto simp: good_path_def)
  have "py_split ''.'' (p @ CHR ''.'' # join (q # ps)) =
      py_split ''.'' p @ py_split ''.'' (join (q # ps))"
    by (rule py_split_single_append)
  with "3.IH" [OF g] p show ?case
    by (simp add: py_split_single_absent)
qed

lemma join_inject: "good_path p \<Longrightarrow> good_path q \<Longrightarrow> join p = join q \<Longrightarrow> p = q"
  by (metis split_join)

lemma pk_inject: "pk parent a = pk parent b \<Longrightarrow> a = b"
  by (auto simp: pk_def split: if_splits)

lemma paths_good: "tree_ok its \<Longrightarrow> (p, x) \<in> set (paths its) \<Longrightarrow> good_path p"
proof (induction its arbitrary: p x rule: paths.induct)
  case 1
  then show ?case by simp
next
  case (2 k v rest)
  show ?case
  proof (cases v)
    case (PDict sub)
    with "2.prems" "2.IH"(1) [OF PDict] "2.IH"(2) show ?thesis
      by (auto simp: good_path_def)
  qed (use "2.prems" "2.IH"(2) in \<open>auto simp: good_path_def\<close>)
qed

lemma paths_head: "(p, x) \<in> set (paths its) \<Longrightarrow> p \<noteq> [] \<and> hd p \<in> dict_keys its"
proof (induction its arbitrary: p x rule: paths.induct)
  case 1
  then show ?case by simp
next
  case (2 k v rest)
  show ?case
  proof (cases "(p, x) \<in> set (paths rest)")
    case True
    from "2.IH"(2) [OF True] show ?thesis
      by (simp add: dict_keys_def)
  next
    case False
    with "2.prems" have "p \<noteq> [] \<and> hd p = k"
      by (cases v) auto
    then show ?thesis
      by (simp add: dict_keys_def)
  qed
qed

lemma paths_nonempty: "tree_ok its \<Longrightarrow> its \<noteq> [] \<Longrightarrow> paths its \<noteq> []"
proof (induction its rule: paths.induct)
  case 1
  then show ?case by simp
next
  case (2 k v rest)
  then show ?case by (cases v) auto
qed

lemma paths_distinct: "tree_ok its \<Longrightarrow> distinct (map fst (paths its))"
proof (induction its rule: paths.induct)
  case 1
  then show ?case by simp
next
  case (2 k v rest)
  have rest: "distinct (map fst (paths rest))"
    using 2 by simp
  have sep: "\<And>p x. (p, x) \<in> set (paths rest) \<Longrightarrow> hd p \<noteq> k"
    using paths_head [of _ _ rest] "2.prems" by auto
  show ?case
  proof (cases v)
    case (PDict sub)
    with "2.prems" "2.IH"(1) have "distinct (map fst (paths sub))" by simp
    then have "distinct (map fst (map (\<lambda>(p, x). (k # p, x)) (paths sub)))"
      by (simp add: distinct_map comp_def case_prod_beta inj_on_def)
    with PDict rest sep show ?thesis
      by (fastforce simp: case_prod_beta)
  qed (use rest sep in \<open>fastforce+\<close>)
qed


definition keyed :: "string \<Rightarrow> (string list \<times> pyval) list \<Rightarrow> pydict" where
  "keyed parent_key ps = map (\<lambda>(p, x). (pk parent_key (join p), x)) ps"

lemma keyed_append: "keyed parent (xs @ ys) = keyed parent xs @ keyed parent ys"
  by (simp add: keyed_def)

lemma keyed_distinct:
  assumes "\<forall>p \<in> fst ` set ps. good_path p" and "distinct (map fst ps)"
  shows "distinct (map fst (keyed parent ps))"
proof -
  have "inj_on (\<lambda>p. pk parent (join p)) (fst ` set ps)"
    using assms(1) by (auto simp: inj_on_def dest!: pk_inject intro: join_inject)
  then have "distinct (map (\<lambda>p. pk parent (join p)) (map fst ps))"
    by (subst distinct_map) (use assms(2) in simp)
  moreover have "map fst (keyed parent ps) = map (\<lambda>p. pk parent (join p)) (map fst ps)"
    by (simp add: keyed_def case_prod_beta comp_def)
  ultimately show ?thesis by simp
qed

lemma keyed_under:
  assumes "\<forall>p \<in> fst ` set ps. p \<noteq> []" and "pk parent k \<noteq> []"
  shows "keyed (pk parent k) ps = keyed parent (map (\<lambda>(p, x). (k # p, x)) ps)"
proof -
  have "\<And>p. p \<noteq> [] \<Longrightarrow> pk (pk parent k) (join p) = pk parent (join (k # p))"
    using assms(2) by (auto simp: pk_def join_Cons)
  with assms(1) show ?thesis
    by (auto simp: keyed_def)
qed

lemma flatten_loop_keyed:
  "tree_ok its \<Longrightarrow> parent \<noteq> [] \<or> top_ok its \<Longrightarrow>
   dict_keys acc \<inter> dict_keys (keyed parent (paths its)) = {} \<Longrightarrow>
   flatten_loop its parent acc = acc @ keyed parent (paths its)"
proof (induction its parent acc rule: flatten_loop.induct)
  case (1 parent_key flattened)
  then show ?case by (simp add: keyed_def)
next
  case (2 k v items parent_key flattened)
  let ?new_key = "if parent_key \<noteq> [] then parent_key @ ''.'' @ k else k"
  have nk: "?new_key = pk parent_key k" by (simp add: pk_def)
  have ok_items: "tree_ok items" and top_items: "parent_key \<noteq> [] \<or> top_ok items"
    using "2.prems"(1,2) by (auto simp: top_ok_def)
  have good: "\<forall>p \<in> fst ` set (paths ((k, v) # items)). good_path p"
    using paths_good [OF "2.prems"(1)] by (auto simp del: paths.simps)
  have dist: "distinct (map fst (keyed parent_key (paths ((k, v) # items))))"
    by (rule keyed_distinct [OF good paths_distinct [OF "2.prems"(1)]])
  define here where "here = (case v of
        PDict sub \<Rightarrow> map (\<lambda>(p, x). (k # p, x)) (paths sub)
      | _ \<Rightarrow> [([k], v)])"
  have paths_eq: "paths ((k, v) # items) = here @ paths items"
    by (simp add: here_def)
  from dist [unfolded paths_eq keyed_append]
  have dist_here: "distinct (map fst (keyed parent_key here))"
    and disj: "dict_keys (keyed parent_key here) \<inter> dict_keys (keyed parent_key (paths items)) = {}"
    by (auto simp: dict_keys_def)
  from "2.prems"(3) [unfolded paths_eq keyed_append]
  have fresh_here: "dict_keys flattened \<inter> dict_keys (keyed parent_key here) = {}"
    and fresh_items: "dict_keys flattened \<inter> dict_keys (keyed parent_key (paths items)) = {}"
    by (auto simp: dict_keys_def)
  define acc' where "acc' = (case v of
           PDict sub \<Rightarrow> dict_update flattened (flatten_loop sub ?new_key [])
         | _ \<Rightarrow> dict_set flattened ?new_key v)"
  have acc': "acc' = flattened @ keyed parent_key here"
  proof (cases "is_dict v")
    case True
    then obtain sub where PDict: "v = PDict sub" by (cases v) auto
    from "2.prems"(1) PDict have ok_sub: "tree_ok sub" by simp
    from "2.prems"(2) PDict have ne: "?new_key \<noteq> []"
      by (auto simp: top_ok_def)
    have "flatten_loop sub ?new_key [] = [] @ keyed ?new_key (paths sub)"
      using "2.IH"(1) [OF refl PDict ok_sub] ne by (simp add: dict_keys_def)
    also have "keyed ?new_key (paths sub) = keyed parent_key here"
    proof -
      have "\<forall>p \<in> fst ` set (paths sub). p \<noteq> []"
        using paths_good [OF ok_sub] by (auto simp: good_path_def)
      from keyed_under [OF this, of parent_key k] ne nk PDict show ?thesis
        by (simp add: here_def)
    qed
    finally have "flatten_loop sub ?new_key [] = keyed parent_key here" by simp
    with PDict dist_here fresh_here show ?thesis
      by (simp add: acc'_def dict_update_fresh)
  next
    case False
    then have h: "here = [([k], v)]"
      by (cases v) (auto simp: here_def)
    from False have a: "acc' = dict_set flattened (pk parent_key k) v"
      by (cases v) (auto simp: acc'_def pk_def)
    have kh: "keyed parent_key here = [(pk parent_key k, v)]"
      by (simp add: h keyed_def)
    from fresh_here kh have "pk parent_key k \<notin> dict_keys flattened"
      by (auto simp: dict_keys_def)
    then show ?thesis
      by (simp add: a kh dict_set_fresh)
  qed
  have fresh': "dict_keys acc' \<inter> dict_keys (keyed parent_key (paths items)) = {}"
    using acc' fresh_items disj by (auto simp: dict_keys_def)
  have rest: "flatten_loop items parent_key acc' = acc' @ keyed parent_key (paths items)"
    using "2.IH"(2) [OF refl ok_items top_items] fresh' by (simp add: acc'_def)
  have step: "flatten_loop ((k, v) # items) parent_key flattened =
      flatten_loop items parent_key acc'"
    by (simp add: acc'_def Let_def)
  show ?case
    unfolding step rest unfolding paths_eq keyed_append acc' by simp
qed


lemma flatten_dict_keyed:
  assumes "tree_ok n" and "top_ok n"
  shows "flatten_dict n [] = map (\<lambda>(p, x). (join p, x)) (paths n)"
  using flatten_loop_keyed [of n "[]" "[]"] assms
  by (simp add: flatten_dict_def keyed_def pk_def dict_keys_def)

lemma unflatten_loop_joined:
  "\<forall>p \<in> fst ` set ps. good_path p \<Longrightarrow>
   unflatten_loop (map (\<lambda>(p, x). (join p, x)) ps) u = assign_all ps u"
proof (induction ps arbitrary: u)
  case Nil
  then show ?case by simp
next
  case (Cons px ps)
  obtain p x where px: "px = (p, x)" by (cases px)
  from Cons.prems px have "py_split ''.'' (join p) = p"
    by (simp add: split_join)
  with Cons px show ?case
    by (auto split: sum.splits)
qed

lemma assign_all_append:
  "assign_all (xs @ ys) u =
     (case assign_all xs u of Inl e \<Rightarrow> Inl e | Inr u' \<Rightarrow> assign_all ys u')"
  by (induction xs arbitrary: u) (auto split: sum.splits)

lemma assign_all_under_key:
  assumes "\<forall>p \<in> fst ` set ps. p \<noteq> []"
    and "descend u k = Inr d"
    and "ps \<noteq> [] \<or> map_of u k = Some (PDict d)"
  shows "assign_all (map (\<lambda>(p, x). (k # p, x)) ps) u =
     (case assign_all ps d of Inl e \<Rightarrow> Inl e | Inr s \<Rightarrow> Inr (dict_set u k (PDict s)))"
  using assms
proof (induction ps arbitrary: u d)
  case Nil
  then show ?case by (simp add: dict_set_same)
next
  case (Cons px ps)
  obtain p x where px: "px = (p, x)" by (cases px)
  from Cons.prems(1) px obtain a as where p: "p = a # as"
    by (cases p) auto
  have ne: "\<forall>p \<in> fst ` set ps. p \<noteq> []"
    using Cons.prems(1) by simp
  show ?case
  proof (cases "assign_path d p x")
    case (Inl e)
    with Cons.prems(2) px p show ?thesis by simp
  next
    case (Inr d')
    let ?u1 = "dict_set u k (PDict d')"
    have d1: "descend ?u1 k = Inr d'" and m1: "map_of ?u1 k = Some (PDict d')"
      by (simp_all add: descend_def map_of_dict_set)
    from Cons.IH [OF ne d1] m1
    have "assign_all (map (\<lambda>(p, x). (k # p, x)) ps) ?u1 =
      (case assign_all ps d' of Inl e \<Rightarrow> Inl e | Inr s \<Rightarrow> Inr (dict_set ?u1 k (PDict s)))"
      by simp
    with Inr Cons.prems(2) px p show ?thesis
      by (simp add: dict_set_twice split: sum.splits)
  qed
qed

lemma assign_all_paths:
  "tree_ok its \<Longrightarrow> dict_keys u \<inter> dict_keys its = {} \<Longrightarrow>
   assign_all (paths its) u = Inr (u @ its)"
proof (induction its arbitrary: u rule: paths.induct)
  case 1
  then show ?case by simp
next
  case (2 k v rest)
  from "2.prems" have fresh: "k \<notin> dict_keys u" and ok_rest: "tree_ok rest"
    and k_rest: "k \<notin> dict_keys rest"
    by (auto simp: dict_keys_def)
  have after: "assign_all (paths rest) (u @ [(k, v)]) = Inr (u @ (k, v) # rest)"
  proof -
    from "2.prems"(2) k_rest have "dict_keys (u @ [(k, v)]) \<inter> dict_keys rest = {}"
      by (auto simp: dict_keys_def)
    from "2.IH"(2) [OF ok_rest this] show ?thesis by simp
  qed
  show ?case
  proof (cases "is_dict v")
    case True
    then obtain sub where PDict: "v = PDict sub" by (cases v) auto
    from "2.prems"(1) PDict have ok_sub: "tree_ok sub" and ne_sub: "sub \<noteq> []"
      by simp_all
    have sub: "assign_all (paths sub) [] = Inr sub"
      using "2.IH"(1) [OF PDict ok_sub, of "[]"] by (simp add: dict_keys_def)
    have ne: "\<forall>p \<in> fst ` set (paths sub). p \<noteq> []"
      using paths_good [OF ok_sub] by (auto simp: good_path_def)
    from fresh have "map_of u k = None"
      by (simp add: dict_keys_def map_of_eq_None_iff)
    then have d: "descend u k = Inr []"
      by (simp add: descend_def)
    from assign_all_under_key [OF ne d] paths_nonempty [OF ok_sub ne_sub] sub
    have "assign_all (map (\<lambda>(p, x). (k # p, x)) (paths sub)) u = Inr (dict_set u k (PDict sub))"
      by simp
    with PDict fresh after show ?thesis
      by (simp add: assign_all_append dict_set_fresh)
  next
    case False
    then have "paths ((k, v) # rest) = ([k], v) # paths rest"
      by (cases v) auto
    with fresh after show ?thesis
      by (simp add: dict_set_fresh)
  qed
qed

text \<open>
  C4 (as stated, refuted). A key that contains the separator does not survive the round
  trip: \<^verbatim>\<open>unflatten_dict(flatten_dict({"a.b": "x"})) == {"a": {"b": "x"}}\<close>.
\<close>

theorem unflatten_flatten_dotted_key:
  "unflatten_dict (flatten_dict [(''a.b'', PStr ''x'')] []) = Inr [(''a'', PDict [(''b'', PStr ''x'')])]
   \<and> unflatten_dict (flatten_dict [(''a.b'', PStr ''x'')] []) \<noteq> Inr [(''a.b'', PStr ''x'')]"
  by (simp add: unflatten_dict_def flatten_dict_def descend_def)

text \<open>
  C4 (amended). For every tree-shaped nested mapping \<open>n\<close> without empty intermediate
  mappings whose keys contain no \<^verbatim>\<open>"."\<close> and whose outermost keys that hold a mapping are
  non-empty, \<open>unflatten_dict (flatten_dict n) = n\<close>, with the insertion order kept.
\<close>

theorem unflatten_flatten_roundtrip:
  assumes "tree_ok n" and "top_ok n"
  shows "unflatten_dict (flatten_dict n []) = Inr n"
proof -
  have good: "\<forall>p \<in> fst ` set (paths n). good_path p"
    using paths_good [OF assms(1)] by auto
  have "unflatten_dict (flatten_dict n []) = assign_all (paths n) []"
    by (simp add: unflatten_dict_def flatten_dict_keyed [OF assms] unflatten_loop_joined [OF good])
  also have "\<dots> = Inr n"
    using assign_all_paths [OF assms(1), of "[]"] by (simp add: dict_keys_def)
  finally show ?thesis .
qed


theorem unflatten_flatten_roundtrip_witness:
  "flatten_dict [(''authority'', PDict [(''id'', PStr ''x'')])] [] = [(''authority.id'', PStr ''x'')]
   \<and> unflatten_dict (flatten_dict [(''authority'', PDict [(''id'', PStr ''x'')])] [])
       = Inr [(''authority'', PDict [(''id'', PStr ''x'')])]"
proof -
  have t: "tree_ok [(''authority'', PDict [(''id'', PStr ''x'')])]"
    by (simp add: dict_keys_def)
  have o: "top_ok [(''authority'', PDict [(''id'', PStr ''x'')])]"
    by (simp add: top_ok_def)
  have f: "flatten_dict [(''authority'', PDict [(''id'', PStr ''x'')])] [] =
      [(''authority.id'', PStr ''x'')]"
    by (simp add: flatten_dict_def)
  from unflatten_flatten_roundtrip [OF t o] f show ?thesis by simp
qed

section \<open>Properties of \<open>access_nested_dict\<close>\<close>

text \<open>
  \<open>access_nested_spec\<close> follows the specification's words instead of the code: the current
  node is decoded whenever it is a string, at every level of the walk.
  \<open>sample_json_loads\<close> fixes the value of \<^verbatim>\<open>json.loads\<close> on the one text the examples
  below decode, \<^verbatim>\<open>'{"b": 1}'\<close>.
\<close>

fun walk_spec :: "(string \<Rightarrow> error + pyval) \<Rightarrow> pyval \<Rightarrow> string list \<Rightarrow> error + pyval" where
  "walk_spec json_loads v [] = Inr v"
| "walk_spec json_loads v (key # keys) =
     (case (case v of PStr s \<Rightarrow> json_loads s | _ \<Rightarrow> Inr v) of
        Inl e \<Rightarrow> Inl e
      | Inr node \<Rightarrow>
          (case subscript node key of
             Inl e \<Rightarrow> Inl e
           | Inr v' \<Rightarrow> walk_spec json_loads v' keys))"

definition access_nested_spec ::
  "(string \<Rightarrow> error + pyval) \<Rightarrow> pyval \<Rightarrow> string \<Rightarrow> error + pyval" where
  "access_nested_spec json_loads root keys =
     (if keys = [] then Inr root else walk_spec json_loads root (py_split ''.'' keys))"

definition sample_json_loads :: "string \<Rightarrow> error + pyval" where
  \<open>sample_json_loads s =
     (if s = ''{"b": 1}'' then Inr (PDict [(''b'', PInt 1)]) else Inl JSONDecodeError)\<close>

lemma walk_append:
  "walk v (pre @ post) = (case walk v pre of Inl e \<Rightarrow> Inl e | Inr m \<Rightarrow> walk m post)"
  by (induction pre arbitrary: v) (auto split: sum.splits)

lemma walk_KeyError_iff:
  "walk v ps = Inl KeyError \<longleftrightarrow>
     (\<exists>pre k post d. ps = pre @ k # post \<and> walk v pre = Inr (PDict d) \<and> k \<notin> dict_keys d)"
proof (induction ps arbitrary: v)
  case Nil
  then show ?case by simp
next
  case (Cons key keys)
  show ?case
  proof
    assume l: "walk v (key # keys) = Inl KeyError"
    show "\<exists>pre k post d. key # keys = pre @ k # post \<and> walk v pre = Inr (PDict d) \<and> k \<notin> dict_keys d"
    proof (cases "subscript v key")
      case (Inl e)
      with l have e: "e = KeyError" by simp
      with Inl obtain d where "v = PDict d" "map_of d key = None"
        by (cases v) (auto split: option.splits)
      then have "key # keys = [] @ key # keys \<and> walk v [] = Inr (PDict d) \<and> key \<notin> dict_keys d"
        by (simp add: dict_keys_def map_of_eq_None_iff)
      then show ?thesis by blast
    next
      case (Inr v')
      with l have "walk v' keys = Inl KeyError" by simp
      then obtain pre k post d where
        "keys = pre @ k # post" "walk v' pre = Inr (PDict d)" "k \<notin> dict_keys d"
        using Cons.IH [of v'] by blast
      with Inr have "key # keys = (key # pre) @ k # post \<and> walk v (key # pre) = Inr (PDict d)
          \<and> k \<notin> dict_keys d"
        by simp
      then show ?thesis by blast
    qed
  next
    assume "\<exists>pre k post d. key # keys = pre @ k # post \<and> walk v pre = Inr (PDict d) \<and> k \<notin> dict_keys d"
    then obtain pre k post d where
      ps: "key # keys = pre @ k # post" and w: "walk v pre = Inr (PDict d)" and k: "k \<notin> dict_keys d"
      by blast
    from k have "map_of d k = None"
      by (simp add: dict_keys_def map_of_eq_None_iff)
    then have "walk (PDict d) (k # post) = Inl KeyError" by simp
    with w ps show "walk v (key # keys) = Inl KeyError"
      by (simp add: walk_append)
  qed
qed

lemma walk_through_string:
  "walk v pre = Inr (PStr s) \<Longrightarrow> walk v (pre @ k # post) = Inl TypeError"
  by (simp add: walk_append)

text \<open>
  C6 (as stated, refuted). The claim says that any node that is a string-encoded structure
  is decoded before the walk descends into it. The code decodes the root only: a string
  met below the root is subscripted as it is, which raises a \<^verbatim>\<open>TypeError\<close>.
\<close>

theorem access_nested_dict_nested_string_not_decoded:
  \<open>access_nested_dict sample_json_loads (PDict [(''a'', PStr ''{"b": 1}'')]) ''a.b''
      = Inl TypeError \<and>
   access_nested_spec sample_json_loads (PDict [(''a'', PStr ''{"b": 1}'')]) ''a.b''
      = Inr (PInt 1)\<close>
  by (simp add: access_nested_dict_def access_nested_spec_def sample_json_loads_def)

text \<open>
  C6 (amended). For a non-empty dotted path, \<open>access_nested_dict\<close> decodes the root when
  it is a string and then walks the path segment by segment without decoding again. It
  fails with a \<^verbatim>\<open>KeyError\<close> exactly when some segment is absent from the mapping reached
  at that level, and with a \<^verbatim>\<open>TypeError\<close> when a string is reached before the path ends.
\<close>

theorem access_nested_dict_decodes_root_only:
  assumes keys: "keys \<noteq> []"
    and root: "(case root of PStr s \<Rightarrow> json_loads s | _ \<Rightarrow> Inr root) = Inr v"
  shows "access_nested_dict json_loads root keys = walk v (py_split ''.'' keys) \<and>
         (access_nested_dict json_loads root keys = Inl KeyError \<longleftrightarrow>
            (\<exists>pre k post d. py_split ''.'' keys = pre @ k # post \<and>
               walk v pre = Inr (PDict d) \<and> k \<notin> dict_keys d)) \<and>
         (\<forall>pre k post s. py_split ''.'' keys = pre @ k # post \<and> walk v pre = Inr (PStr s) \<longrightarrow>
            access_nested_dict json_loads root keys = Inl TypeError)"
proof -
  have a: "access_nested_dict json_loads root keys = walk v (py_split ''.'' keys)"
    using keys root by (simp add: access_nested_dict_def)
  show ?thesis
    unfolding a using walk_KeyError_iff [of v "py_split ''.'' keys"] walk_through_string [of v]
    by auto
qed

theorem access_nested_dict_decodes_root_only_witness:
  \<open>access_nested_dict sample_json_loads (PStr ''{"b": 1}'') ''b'' = Inr (PInt 1) \<and>
   access_nested_dict sample_json_loads (PStr ''{"b": 1}'') ''c'' = Inl KeyError\<close>
proof -
  have k: "''b'' \<noteq> []" "''c'' \<noteq> []" by simp_all
  have r: \<open>(case PStr ''{"b": 1}'' of PStr s \<Rightarrow> sample_json_loads s | _ \<Rightarrow> Inr (PStr ''{"b": 1}''))
      = Inr (PDict [(''b'', PInt 1)])\<close>
    by (simp add: sample_json_loads_def)
  from access_nested_dict_decodes_root_only [OF k(1) r]
       access_nested_dict_decodes_root_only [OF k(2) r]
  show ?thesis by simp
qed


section \<open>External collaborators\<close>

text \<open>
  What the step implementations take from outside this file is a parameter of the model,
  gathered in one record: the \<^verbatim>\<open>UCode\<close> enumeration of the protocol definitions (its
  members, and the other attributes of the wrapper object that holds them), the
  parts of the standard library that are not modelled (\<^verbatim>\<open>int\<close> and
  \<^verbatim>\<open>re.sub(r"_\d+", "", s)\<close> on text with non-ASCII characters, the interpreter's limit
  on the digits of an integer literal, floats, \<^verbatim>\<open>json.loads\<close>), the operating system (\<^verbatim>\<open>sys.platform\<close>, \<^verbatim>\<open>os.getcwd\<close>,
  \<^verbatim>\<open>os.path.dirname\<close>, \<^verbatim>\<open>os.path.abspath\<close>, \<^verbatim>\<open>os.access(path, os.X_OK)\<close>, whether
  \<^verbatim>\<open>subprocess.Popen\<close> raises) and the test manager \<^verbatim>\<open>context.tm\<close>
  (\<^verbatim>\<open>has_sdk_connection\<close>, whose answer may change from one poll to the next and so takes
  the number of the poll, \<^verbatim>\<open>request\<close> and \<^verbatim>\<open>get_onreceive\<close>).
\<close>

record env =
  ucode :: "(string \<times> int) list"
  ucode_attribute :: "string \<Rightarrow> pyval option"
  int_max_str_digits :: nat
  int_of_unicode :: "string \<Rightarrow> int option"
  re_sub_unicode :: "string \<Rightarrow> string"
  py_float :: "pyval \<Rightarrow> error + nat"
  float_to_int :: "nat \<Rightarrow> error + int"
  json_loads :: "string \<Rightarrow> error + pyval"
  platform :: string
  getcwd :: string
  dirname :: "string \<Rightarrow> string"
  abspath :: "string \<Rightarrow> string"
  access_x_ok :: "string \<Rightarrow> bool"
  popen_error :: "string list \<Rightarrow> bool \<Rightarrow> error option"
  has_sdk_connection :: "nat \<Rightarrow> string \<Rightarrow> bool"
  request :: "string \<Rightarrow> string \<Rightarrow> pyval \<Rightarrow> error + pyval"
  get_onreceive :: "string \<Rightarrow> error + pyval"

section \<open>Value caster\<close>

text \<open>
  \<^verbatim>\<open>int(s)\<close> on ASCII text: surrounding whitespace is dropped, one sign is allowed, and the
  digits may be grouped by single underscores; an interpreter with a digit limit
  (\<^verbatim>\<open>sys.get_int_max_str_digits()\<close>, 0 when there is none) refuses longer literals. All
  failures are \<^verbatim>\<open>ValueError\<close>.
\<close>

definition is_ascii :: "char \<Rightarrow> bool" where
  "is_ascii c = (of_char c < (128 :: nat))"

definition ascii_space :: "char \<Rightarrow> bool" where
  "ascii_space c = (c \<in> set [CHR 0x20, CHR 0x09, CHR 0x0A, CHR 0x0B, CHR 0x0C, CHR 0x0D])"

definition digit_val :: "char \<Rightarrow> nat option" where
  "digit_val c =
     (let n = of_char c :: nat in if 48 \<le> n \<and> n \<le> 57 then Some (n - 48) else None)"

fun parse_digits :: "nat \<Rightarrow> nat \<Rightarrow> string \<Rightarrow> (nat \<times> nat) option" where
  "parse_digits acc n [] = Some (acc, n)"
| "parse_digits acc n [c] =
     (case digit_val c of None \<Rightarrow> None | Some d \<Rightarrow> Some (10 * acc + d, Suc n))"
| "parse_digits acc n (c # c' # cs) =
     (case digit_val c of
        None \<Rightarrow> None
      | Some d \<Rightarrow>
          if c' = CHR ''_''
          then (if cs = [] then None else parse_digits (10 * acc + d) (Suc n) cs)
          else parse_digits (10 * acc + d) (Suc n) (c' # cs))"

definition py_int_ascii :: "nat \<Rightarrow> string \<Rightarrow> int option" where
  "py_int_ascii max_digits s =
     (let t = rev (dropWhile ascii_space (rev (dropWhile ascii_space s)));
          neg = (t \<noteq> [] \<and> hd t = CHR ''-'');
          body = (if t \<noteq> [] \<and> (hd t = CHR ''-'' \<or> hd t = CHR ''+'') then tl t else t)
      in if body = [] then None
         else case parse_digits 0 0 body of
                None \<Rightarrow> None
              | Some (v, n) \<Rightarrow>
                  if 0 < max_digits \<and> max_digits < n \<and> 640 < n then None
                  else Some (if neg then - int v else int v))"

definition py_int :: "env \<Rightarrow> string \<Rightarrow> int option" where
  "py_int e s =
     (if list_all is_ascii s then py_int_ascii (int_max_str_digits e) s
      else int_of_unicode e s)"

fun int_of :: "env \<Rightarrow> pyval \<Rightarrow> error + int" where
  "int_of e (PStr s) = (case py_int e s of None \<Rightarrow> Inl ValueError | Some n \<Rightarrow> Inr n)"
| "int_of e (PBytes b) =
     (case py_int_ascii (int_max_str_digits e) b of None \<Rightarrow> Inl ValueError | Some n \<Rightarrow> Inr n)"
| "int_of e (PInt n) = Inr n"
| "int_of e (PBool b) = Inr (if b then 1 else 0)"
| "int_of e (PFloat f) = float_to_int e f"
| "int_of e _ = Inl TypeError"

text \<open>
  \<^verbatim>\<open>
  def cast(value: str, data_type: str, jsonable: bool = True):
      if "UCode" in value:
          enum_member: str = value.split(".")[1]
          value = getattr(UCode, enum_member)
      if data_type == "int":
          try:
              value = int(value)
          except ValueError:
              value = None
      elif data_type == "str":
          pass
      elif data_type == "bool":
          value = bool(value)
      elif data_type == "float":
          value = float(value)
      elif data_type == "bytes":
          if jsonable:
              value = cast_data_to_jsonable_bytes(value)
          else:
              value = cast_data_to_bytes(value)
      else:
          raise ValueError(f"protobuf_field_type {data_type} not handled!")
      return value
  \<close>
  \<open>getattr_UCode\<close> is \<^verbatim>\<open>getattr(UCode, name)\<close>: an attribute of the enumeration's wrapper
  object (\<^verbatim>\<open>keys\<close>, \<^verbatim>\<open>values\<close>, \<^verbatim>\<open>Name\<close>, ...) is found first, then a member of the
  enumeration, whose value is its number. \<open>u_code\<close> is the enumeration of the protocol's
  status codes.
\<close>

definition getattr_UCode :: "env \<Rightarrow> string \<Rightarrow> error + pyval" where
  "getattr_UCode e name =
     (case ucode_attribute e name of
        Some v \<Rightarrow> Inr v
      | None \<Rightarrow>
          (case map_of (ucode e) name of
             None \<Rightarrow> Inl AttributeError
           | Some n \<Rightarrow> Inr (PInt n)))"

fun truthy :: "pyval \<Rightarrow> bool" where
  "truthy PNone = False"
| "truthy (PBool b) = b"
| "truthy (PInt n) = (n \<noteq> 0)"
| "truthy (PFloat f) = (f \<noteq> 0 \<and> f \<noteq> 2 ^ 63)"
| "truthy (PStr s) = (s \<noteq> [])"
| "truthy (PBytes b) = (b \<noteq> [])"
| "truthy (PList l) = (l \<noteq> [])"
| "truthy (PDict d) = (d \<noteq> [])"
| "truthy (PObject name) = True"

fun cast_data_to_jsonable_bytes :: "pyval \<Rightarrow> error + pyval" where
  "cast_data_to_jsonable_bytes (PStr s) = Inr (PStr (''BYTES:'' @ s))"
| "cast_data_to_jsonable_bytes _ = Inl TypeError"

fun cast_data_to_bytes :: "pyval \<Rightarrow> error + pyval" where
  "cast_data_to_bytes (PStr s) = Inr (PBytes s)"
| "cast_data_to_bytes _ = Inl AttributeError"

definition cast :: "env \<Rightarrow> string \<Rightarrow> string \<Rightarrow> bool \<Rightarrow> error + pyval" where
  "cast e val data_type jsonable =
     (case (if sublist ''UCode'' val
            then (case second (py_split ''.'' val) of
                    Inl err \<Rightarrow> Inl err
                  | Inr enum_member \<Rightarrow> getattr_UCode e enum_member)
            else Inr (PStr val)) of
        Inl err \<Rightarrow> Inl err
      | Inr v \<Rightarrow>
          if data_type = ''int'' then
            (case int_of e v of
               Inl err \<Rightarrow> if isinstance_ValueError err then Inr PNone else Inl err
             | Inr n \<Rightarrow> Inr (PInt n))
          else if data_type = ''str'' then Inr v
          else if data_type = ''bool'' then Inr (PBool (truthy v))
          else if data_type = ''float'' then
            (case py_float e v of Inl err \<Rightarrow> Inl err | Inr f \<Rightarrow> Inr (PFloat f))
          else if data_type = ''bytes'' then
            (if jsonable then cast_data_to_jsonable_bytes v else cast_data_to_bytes v)
          else Inl ValueError)"

definition u_code :: "(string \<times> int) list" where
  "u_code = [(''OK'', 0), (''CANCELLED'', 1), (''UNKNOWN'', 2), (''INVALID_ARGUMENT'', 3),
     (''DEADLINE_EXCEEDED'', 4), (''NOT_FOUND'', 5), (''ALREADY_EXISTS'', 6),
     (''PERMISSION_DENIED'', 7), (''UNAUTHENTICATED'', 16), (''RESOURCE_EXHAUSTED'', 8),
     (''FAILED_PRECONDITION'', 9), (''ABORTED'', 10), (''OUT_OF_RANGE'', 11),
     (''UNIMPLEMENTED'', 12), (''INTERNAL'', 13), (''UNAVAILABLE'', 14), (''DATA_LOSS'', 15)]"

text \<open>
  A concrete environment for the examples: a Linux host with the test manager run from
  \<^verbatim>\<open>/up-tck/test_manager\<close> (the paths it meets have no \<^verbatim>\<open>.\<close> or \<^verbatim>\<open>..\<close> component, so
  \<^verbatim>\<open>abspath\<close> only collapses the doubled separator), no agent binary marked executable, the
  default digit limit, an agent that is connected at the first poll. The examples apply
  it to ASCII text only and use no float.
\<close>

definition sample_env :: env where
  "sample_env = \<lparr>
     ucode = u_code,
     ucode_attribute = (\<lambda>name.
       if name \<in> set [''Name'', ''Value'', ''keys'', ''values'', ''items'', ''DESCRIPTOR'']
       then Some (PObject name) else None),
     int_max_str_digits = 4300,
     int_of_unicode = (\<lambda>s. None),
     re_sub_unicode = (\<lambda>s. s),
     py_float = (\<lambda>v. Inl ValueError),
     float_to_int = (\<lambda>f. Inl OverflowError),
     json_loads = sample_json_loads,
     platform = ''linux'',
     getcwd = ''/up-tck/test_manager'',
     dirname = (\<lambda>p. ''/up-tck''),
     abspath = py_replace ''//'' ''/'',
     access_x_ok = (\<lambda>p. False),
     popen_error = (\<lambda>command shell. None),
     has_sdk_connection = (\<lambda>n name. True),
     request = (\<lambda>name command payload. Inr (PDict [(''data'', PDict [(''code'', PInt 0)])])),
     get_onreceive = (\<lambda>name. Inl KeyError)
   \<rparr>"

text \<open>
  C5 (as stated, refuted). The claim is about every string. A value that contains
  \<^verbatim>\<open>UCode\<close> is first resolved as a reference to the enumeration, and
  \<^verbatim>\<open>cast("UCode", "int")\<close> raises the \<^verbatim>\<open>IndexError\<close> of \<^verbatim>\<open>value.split(".")[1]\<close>.
\<close>

theorem cast_int_UCode_raises:
  "cast sample_env ''UCode'' ''int'' True = Inl IndexError"
  by (simp add: cast_def)

text \<open>
  C5 (amended). For every string that does not contain \<^verbatim>\<open>UCode\<close> and the declared type
  \<^verbatim>\<open>int\<close>, \<open>cast\<close> returns the integer that \<^verbatim>\<open>int\<close> parses and returns \<^verbatim>\<open>None\<close>, without
  raising, when the parse fails; \<^verbatim>\<open>cast("42", "int") == 42\<close> and
  \<^verbatim>\<open>cast("abc", "int") is None\<close>.
\<close>

theorem cast_int_parses_or_none:
  assumes "\<not> sublist ''UCode'' val"
  shows "(\<forall>n. py_int e val = Some n \<longrightarrow> cast e val ''int'' jsonable = Inr (PInt n)) \<and>
         (py_int e val = None \<longrightarrow> cast e val ''int'' jsonable = Inr PNone) \<and>
         cast e ''42'' ''int'' jsonable = Inr (PInt 42) \<and>
         cast e ''abc'' ''int'' jsonable = Inr PNone"
proof -
  have plain: "cast e val ''int'' jsonable =
      (case py_int e val of Some n \<Rightarrow> Inr (PInt n) | None \<Rightarrow> Inr PNone)"
    using assms by (simp add: cast_def split: option.splits)
  have n42: "\<not> sublist ''UCode'' ''42''" and nabc: "\<not> sublist ''UCode'' ''abc''"
    by code_simp+
  have "py_int e ''42'' = Some 42" and "py_int e ''abc'' = None"
    by (simp_all add: py_int_def is_ascii_def py_int_ascii_def ascii_space_def digit_val_def)
  then have "cast e ''42'' ''int'' jsonable = Inr (PInt 42)"
    and "cast e ''abc'' ''int'' jsonable = Inr PNone"
    using n42 nabc by (simp_all add: cast_def)
  with plain show ?thesis by simp
qed

theorem cast_int_parses_or_none_witness:
  "cast sample_env '' -1_0 '' ''int'' True = Inr (PInt (- 10)) \<and>
   cast sample_env ''4_'' ''int'' True = Inr PNone"
proof -
  have a: "\<not> sublist ''UCode'' '' -1_0 ''" and b: "\<not> sublist ''UCode'' ''4_''"
    by code_simp+
  have pa: "py_int sample_env '' -1_0 '' = Some (- 10)"
    and pb: "py_int sample_env ''4_'' = None"
    by (simp_all add: py_int_def is_ascii_def py_int_ascii_def ascii_space_def digit_val_def
        sample_env_def)
  from cast_int_parses_or_none [OF a, of sample_env True] pa
       cast_int_parses_or_none [OF b, of sample_env True] pb
  show ?thesis by simp
qed

section \<open>More of the standard library\<close>

text \<open>
  \<^verbatim>\<open>s.strip()\<close>: the characters Python counts as whitespace, each in its UTF-8 encoding, are
  removed from both ends.
\<close>

definition whitespace :: "string list" where
  "whitespace =
   [[CHR 0x09], [CHR 0x0A], [CHR 0x0B], [CHR 0x0C], [CHR 0x0D], [CHR 0x1C], [CHR 0x1D],
     [CHR 0x1E], [CHR 0x1F], [CHR 0x20], [CHR 0xC2, CHR 0x85], [CHR 0xC2, CHR 0xA0],
     [CHR 0xE1, CHR 0x9A, CHR 0x80], [CHR 0xE2, CHR 0x80, CHR 0x80],
     [CHR 0xE2, CHR 0x80, CHR 0x81], [CHR 0xE2, CHR 0x80, CHR 0x82],
     [CHR 0xE2, CHR 0x80, CHR 0x83], [CHR 0xE2, CHR 0x80, CHR 0x84],
     [CHR 0xE2, CHR 0x80, CHR 0x85], [CHR 0xE2, CHR 0x80, CHR 0x86],
     [CHR 0xE2, CHR 0x80, CHR 0x87], [CHR 0xE2, CHR 0x80, CHR 0x88],
     [CHR 0xE2, CHR 0x80, CHR 0x89], [CHR 0xE2, CHR 0x80, CHR 0x8A],
     [CHR 0xE2, CHR 0x80, CHR 0xA8], [CHR 0xE2, CHR 0x80, CHR 0xA9],
     [CHR 0xE2, CHR 0x80, CHR 0xAF], [CHR 0xE2, CHR 0x81, CHR 0x9F],
     [CHR 0xE3, CHR 0x80, CHR 0x80]]"

definition ws_len :: "string list \<Rightarrow> string \<Rightarrow> nat" where
  "ws_len pats s = (case find (\<lambda>w. prefix w s) pats of None \<Rightarrow> 0 | Some w \<Rightarrow> length w)"

fun strip_left :: "string list \<Rightarrow> string \<Rightarrow> string" where
  "strip_left pats [] = []"
| "strip_left pats (c # cs) =
     (if ws_len pats (c # cs) = 0 then c # cs
      else strip_left pats (drop (ws_len pats (c # cs) - 1) cs))"

definition py_strip :: "string \<Rightarrow> string" where
  "py_strip s = rev (strip_left (map rev whitespace) (rev (strip_left whitespace s)))"

text \<open>\<^verbatim>\<open>s[1:]\<close> on a \<^verbatim>\<open>str\<close>: the first character, with its continuation bytes, is dropped.\<close>

definition is_cont :: "char \<Rightarrow> bool" where
  "is_cont c = (128 \<le> (of_char c :: nat) \<and> (of_char c :: nat) < 192)"

fun drop_first_char :: "string \<Rightarrow> string" where
  "drop_first_char [] = []"
| "drop_first_char (c # cs) = dropWhile is_cont cs"

text \<open>
  \<^verbatim>\<open>base64.b64decode(s)\<close> without validation, as \<^verbatim>\<open>binascii.a2b_base64\<close> computes it:
  characters outside the alphabet are skipped, a complete padding ends the decoding, and
  an incomplete last quad is a \<^verbatim>\<open>binascii.Error\<close>. A \<^verbatim>\<open>str\<close> argument must be ASCII
  (\<^verbatim>\<open>ValueError\<close> otherwise), and an argument that is neither \<^verbatim>\<open>str\<close> nor bytes is a
  \<^verbatim>\<open>TypeError\<close>.
\<close>

definition b64_index :: "char \<Rightarrow> nat option" where
  "b64_index c =
     (let n = of_char c :: nat in
      if 65 \<le> n \<and> n \<le> 90 then Some (n - 65)
      else if 97 \<le> n \<and> n \<le> 122 then Some (n - 71)
      else if 48 \<le> n \<and> n \<le> 57 then Some (n + 4)
      else if n = 43 then Some 62
      else if n = 47 then Some 63
      else None)"

fun a2b_base64 :: "nat \<Rightarrow> nat \<Rightarrow> nat \<Rightarrow> string \<Rightarrow> string \<Rightarrow> error + string" where
  "a2b_base64 quad_pos leftchar pads bin_data [] =
     (if quad_pos \<noteq> 0 then Inl BinasciiError else Inr bin_data)"
| "a2b_base64 quad_pos leftchar pads bin_data (c # cs) =
     (if c = CHR ''='' then
        (if 2 \<le> quad_pos \<and> 4 \<le> quad_pos + Suc pads then Inr bin_data
         else a2b_base64 quad_pos leftchar (if 2 \<le> quad_pos then Suc pads else pads) bin_data cs)
      else
        (case b64_index c of
           None \<Rightarrow> a2b_base64 quad_pos leftchar pads bin_data cs
         | Some v \<Rightarrow>
             if quad_pos = 0 then a2b_base64 1 v 0 bin_data cs
             else if quad_pos = 1 then
               a2b_base64 2 (v mod 16) 0 (bin_data @ [char_of (leftchar * 4 + v div 16)]) cs
             else if quad_pos = 2 then
               a2b_base64 3 (v mod 4) 0 (bin_data @ [char_of (leftchar * 16 + v div 4)]) cs
             else a2b_base64 0 0 0 (bin_data @ [char_of (leftchar * 64 + v)]) cs))"

fun b64decode :: "pyval \<Rightarrow> error + string" where
  "b64decode (PStr s) = (if list_all is_ascii s then a2b_base64 0 0 0 [] s else Inl ValueError)"
| "b64decode (PBytes b) = a2b_base64 0 0 0 [] b"
| "b64decode _ = Inl TypeError"

text \<open>\<^verbatim>\<open>b.decode("utf-8")\<close> succeeds exactly on well-formed UTF-8.\<close>

definition in_range :: "char \<Rightarrow> nat \<Rightarrow> nat \<Rightarrow> bool" where
  "in_range c lo hi = (lo \<le> (of_char c :: nat) \<and> (of_char c :: nat) \<le> hi)"

fun utf8_valid :: "string \<Rightarrow> bool" where
  "utf8_valid [] = True"
| "utf8_valid (c # cs) =
     (if in_range c 0 0x7F then utf8_valid cs
      else if in_range c 0xC2 0xDF then
        (case cs of
           c1 # r \<Rightarrow> in_range c1 0x80 0xBF \<and> utf8_valid r
         | _ \<Rightarrow> False)
      else if in_range c 0xE0 0xEF then
        (case cs of
           c1 # c2 # r \<Rightarrow>
             in_range c1 (if c = CHR 0xE0 then 0xA0 else 0x80) (if c = CHR 0xED then 0x9F else 0xBF)
             \<and> in_range c2 0x80 0xBF \<and> utf8_valid r
         | _ \<Rightarrow> False)
      else if in_range c 0xF0 0xF4 then
        (case cs of
           c1 # c2 # c3 # r \<Rightarrow>
             in_range c1 (if c = CHR 0xF0 then 0x90 else 0x80) (if c = CHR 0xF4 then 0x8F else 0xBF)
             \<and> in_range c2 0x80 0xBF \<and> in_range c3 0x80 0xBF \<and> utf8_valid r
         | _ \<Rightarrow> False)
      else False)"

definition utf8_decode :: "string \<Rightarrow> error + string" where
  "utf8_decode b = (if utf8_valid b then Inr b else Inl UnicodeDecodeError)"

text \<open>
  \<^verbatim>\<open>codecs.encode(s, "unicode_escape")\<close>: printable ASCII stays, a backslash is doubled,
  tab, newline and carriage return get their letter, and every other character is written
  as \<^verbatim>\<open>\xhh\<close>, \<^verbatim>\<open>\uhhhh\<close> or \<^verbatim>\<open>\Uhhhhhhhh\<close> from its code point.
\<close>

definition hex_digit :: "nat \<Rightarrow> char" where
  "hex_digit d = ''0123456789abcdef'' ! (d mod 16)"

fun hex_fixed :: "nat \<Rightarrow> nat \<Rightarrow> string" where
  "hex_fixed 0 v = []"
| "hex_fixed (Suc n) v = hex_fixed n (v div 16) @ [hex_digit v]"

definition escape_code_point :: "nat \<Rightarrow> string" where
  "escape_code_point cp =
     (if cp < 0x100 then [CHR 0x5C, CHR ''x''] @ hex_fixed 2 cp
      else if cp < 0x10000 then [CHR 0x5C, CHR ''u''] @ hex_fixed 4 cp
      else [CHR 0x5C, CHR ''U''] @ hex_fixed 8 cp)"

definition escape_ascii :: "char \<Rightarrow> string" where
  "escape_ascii c =
     (if c = CHR 0x5C then [CHR 0x5C, CHR 0x5C]
      else if c = CHR 0x09 then [CHR 0x5C, CHR ''t'']
      else if c = CHR 0x0A then [CHR 0x5C, CHR ''n'']
      else if c = CHR 0x0D then [CHR 0x5C, CHR ''r'']
      else if (of_char c :: nat) < 0x20 \<or> c = CHR 0x7F then escape_code_point (of_char c)
      else [c])"

definition low6 :: "char \<Rightarrow> nat" where
  "low6 c = (of_char c :: nat) - 0x80"

fun unicode_escape :: "string \<Rightarrow> string" where
  "unicode_escape [] = []"
| "unicode_escape (c # cs) =
     (if in_range c 0 0x7F then escape_ascii c @ unicode_escape cs
      else if in_range c 0x80 0xDF then
        (case cs of
           c1 # r \<Rightarrow>
             escape_code_point (((of_char c :: nat) - 0xC0) * 64 + low6 c1) @ unicode_escape r
         | _ \<Rightarrow> [])
      else if in_range c 0xE0 0xEF then
        (case cs of
           c1 # c2 # r \<Rightarrow>
             escape_code_point (((of_char c :: nat) - 0xE0) * 4096 + low6 c1 * 64 + low6 c2)
               @ unicode_escape r
         | _ \<Rightarrow> [])
      else
        (case cs of
           c1 # c2 # c3 # r \<Rightarrow>
             escape_code_point
               (((of_char c :: nat) - 0xF0) * 262144 + low6 c1 * 4096 + low6 c2 * 64 + low6 c3)
               @ unicode_escape r
         | _ \<Rightarrow> []))"

text \<open>
  \<^verbatim>\<open>re.sub(r"_\d+", "", s)\<close> on ASCII text: every underscore that is followed by digits
  is removed with those digits. On other text \<^verbatim>\<open>\d\<close> follows the Unicode tables, and
  the result is taken from the environment.
\<close>

definition is_digit :: "char \<Rightarrow> bool" where
  "is_digit c = (digit_val c \<noteq> None)"

function drop_instance_numbers :: "string \<Rightarrow> string" where
  "drop_instance_numbers [] = []"
| "drop_instance_numbers (c # cs) =
     (if c = CHR ''_'' \<and> cs \<noteq> [] \<and> is_digit (hd cs)
      then drop_instance_numbers (dropWhile is_digit cs)
      else c # drop_instance_numbers cs)"
  by pat_completeness auto
termination
  by (relation "measure length") (auto simp: length_dropWhile_le less_Suc_eq_le)

text \<open>\<^verbatim>\<open>xs[i]\<close> for an integer index: a negative index counts from the end.\<close>

definition py_index :: "'a list \<Rightarrow> int \<Rightarrow> error + 'a" where
  "py_index xs i =
     (if 0 \<le> i \<and> i < int (length xs) then Inr (xs ! nat i)
      else if i < 0 \<and> - int (length xs) \<le> i then Inr (xs ! nat (i + int (length xs)))
      else Inl IndexError)"

section \<open>Scenario context and step outcomes\<close>

text \<open>
  The attributes of the behave \<^verbatim>\<open>context\<close> that the steps read and write. An attribute
  a step may find unset is an option (reading it unset is an \<^verbatim>\<open>AttributeError\<close>).
  \<open>ue_tracker\<close> is the entity table (agent name, transport, serialized address) that the
  scenario setup fills; \<open>ues\<close> maps an implementation kind to the processes started for
  it; \<open>spawned\<close> lists, in order, every command line that \<^verbatim>\<open>subprocess.Popen\<close> has
  started, with its \<^verbatim>\<open>shell\<close> flag; \<open>polls\<close> counts the calls of
  \<^verbatim>\<open>context.tm.has_sdk_connection\<close> made so far.

  A step either returns or raises; in both cases its writes to the context stay.
\<close>

record "context" =
  json_dict :: "pydict option"
  response_data :: "pyval option"
  rust_sender :: "bool option"
  ue :: "string option"
  action :: "string option"
  ue_tracker :: "(string \<times> string \<times> pyval) list"
  ues :: "(string \<times> (string list \<times> bool) list) list"
  spawned :: "(string list \<times> bool) list"
  polls :: nat

datatype outcome = Passed | Failed error

section \<open>Agent launcher\<close>

text \<open>
  \<^verbatim>\<open>
  def create_command(context, filepath_from_root_repo, transport_to_send, sdk_name):
      command: List[str] = []
      full_path = os.path.abspath(os.path.dirname(os.getcwd()) + "/" + filepath_from_root_repo)
      if filepath_from_root_repo.endswith(".jar"):
          command.append("java")
          command.append("-jar")
      elif filepath_from_root_repo.endswith(".py"):
          if sys.platform == "win32":
              command.append("python")
          elif sys.platform == "linux" or sys.platform == "linux2" or sys.platform == "darwin":
              command.append("python3")
      elif os.access(full_path, os.X_OK):
          pass
      elif not filepath_from_root_repo.endswith("rust_tck"):
          raise Exception("only accept .jar, .py, and executable files")
      command.append(full_path)
      command.append("--transport")
      command.append(transport_to_send)
      command.append("--sdkname")
      command.append(sdk_name)
      return command
  \<close>
\<close>

definition PYTHON_TA_PATH :: string where
  "PYTHON_TA_PATH = ''/test_agent/python/testagent.py''"

definition JAVA_TA_PATH :: string where
  "JAVA_TA_PATH = ''/test_agent/java/target/tck-test-agent-java-jar-with-dependencies.jar''"

definition RUST_TA_PATH :: string where
  "RUST_TA_PATH = ''/test_agent/rust/target/debug/rust_tck''"

definition CPP_TA_PATH :: string where
  "CPP_TA_PATH = ''/test_agent/cpp/build/bin/test_agent_cpp''"

definition full_path :: "env \<Rightarrow> string \<Rightarrow> string" where
  "full_path e filepath_from_root_repo =
     abspath e (dirname e (getcwd e) @ ''/'' @ filepath_from_root_repo)"

definition unix_platform :: "string \<Rightarrow> bool" where
  "unix_platform p = (p = ''linux'' \<or> p = ''linux2'' \<or> p = ''darwin'')"

definition create_command :: "env \<Rightarrow> string \<Rightarrow> string \<Rightarrow> string \<Rightarrow> error + string list" where
  "create_command e filepath_from_root_repo transport_to_send sdk_name =
     (case (if suffix ''.jar'' filepath_from_root_repo then Inr [''java'', ''-jar'']
            else if suffix ''.py'' filepath_from_root_repo then
              (if platform e = ''win32'' then Inr [''python'']
               else if unix_platform (platform e) then Inr [''python3'']
               else Inr [])
            else if access_x_ok e (full_path e filepath_from_root_repo) then Inr []
            else if \<not> suffix ''rust_tck'' filepath_from_root_repo then Inl PyException
            else Inr []) of
        Inl err \<Rightarrow> Inl err
      | Inr command \<Rightarrow>
          Inr (command @ [full_path e filepath_from_root_repo,
                 ''--transport'', transport_to_send, ''--sdkname'', sdk_name]))"

text \<open>
  \<^verbatim>\<open>
  def create_subprocess(command):
      if sys.platform == "win32":
          process = subprocess.Popen(command, shell=True)
      elif sys.platform == "linux" or sys.platform == "linux2" or sys.platform == "darwin":
          process = subprocess.Popen(command)
      else:
          raise Exception("only handle Windows and Linux commands for now")
      return process
  \<close>
  The process handle is the command line with its \<^verbatim>\<open>shell\<close> flag.
\<close>

definition create_subprocess :: "env \<Rightarrow> string list \<Rightarrow> error + (string list \<times> bool)" where
  "create_subprocess e command =
     (if platform e = ''win32'' then
        (case popen_error e command True of Some err \<Rightarrow> Inl err | None \<Rightarrow> Inr (command, True))
      else if unix_platform (platform e) then
        (case popen_error e command False of Some err \<Rightarrow> Inl err | None \<Rightarrow> Inr (command, False))
      else Inl PyException)"

section \<open>The step that creates data for an agent\<close>

text \<open>
  \<^verbatim>\<open>while not context.tm.has_sdk_connection(sdk_name): time.sleep(1)\<close> has no bound: when
  the agent never connects the step does not return, which is the value \<open>None\<close>.
  \<open>wait_for_connection connected n\<close> polls from poll number \<open>n\<close> on and gives the number
  of polls made when the loop ends.
\<close>

partial_function (option) wait_for_connection :: "(nat \<Rightarrow> bool) \<Rightarrow> nat \<Rightarrow> nat option" where
  "wait_for_connection connected n =
     (if connected n then Some (Suc n) else wait_for_connection connected (Suc n))"

declare wait_for_connection.simps [code]

definition sdk_paths :: "(string \<times> string) list" where
  "sdk_paths = [(''python'', PYTHON_TA_PATH), (''java'', JAVA_TA_PATH),
                (''rust'', RUST_TA_PATH), (''cpp'', CPP_TA_PATH)]"

definition base_name :: "env \<Rightarrow> string \<Rightarrow> string" where
  "base_name e sdk_name =
     (if list_all is_ascii sdk_name then drop_instance_numbers sdk_name
      else re_sub_unicode e sdk_name)"

text \<open>\<^verbatim>\<open>context.ue_tracker[int(ue_number) - 1]\<close>.\<close>

definition tracked :: "env \<Rightarrow> context \<Rightarrow> string \<Rightarrow> error + (string \<times> string \<times> pyval)" where
  "tracked e ctx ue_number =
     (case int_of e (PStr ue_number) of
        Inl err \<Rightarrow> Inl err
      | Inr n \<Rightarrow> py_index (ue_tracker ctx) (n - 1))"

text \<open>
  A step that is given an agent by reference (a name that contains \<^verbatim>\<open>uE\<close>) looks the
  entity up and continues with the tracked agent name:
  \<^verbatim>\<open>
  ue_number = sdk_name.replace("uE", "")
  if "uE" in sdk_name:
      sdk_name = context.ue_tracker[int(ue_number) - 1][0]
      transport = context.ue_tracker[int(ue_number) - 1][1]
  \<close>
  (\<^verbatim>\<open>transport\<close> is read by \<^verbatim>\<open>create_sdk_data\<close> only, and is bound only on this path.)
\<close>

definition resolve_ue :: "env \<Rightarrow> context \<Rightarrow> string \<Rightarrow> error + string \<times> string option" where
  "resolve_ue e ctx sdk_name =
     (if sublist ''uE'' sdk_name
      then (case tracked e ctx (py_replace ''uE'' '''' sdk_name) of
              Inl err \<Rightarrow> Inl err
            | Inr (name, tr, uri) \<Rightarrow> Inr (name, Some tr))
      else Inr (sdk_name, None))"

text \<open>\<^verbatim>\<open>context.ues.setdefault(base_sdk_name, []).append(process)\<close>.\<close>

definition ues_append ::
  "(string \<times> 'p list) list \<Rightarrow> string \<Rightarrow> 'p \<Rightarrow> (string \<times> 'p list) list" where
  "ues_append m k p =
     dict_set m k ((case map_of m k of None \<Rightarrow> [] | Some ps \<Rightarrow> ps) @ [p])"

text \<open>
  The check of the reply to \<^verbatim>\<open>initialize_transport\<close>:
  \<^verbatim>\<open>
  try:
      assert_that(int(response_json["data"]["code"]), equal_to(UCode.OK))
  except ValueError:
      assert_that(response_json["data"]["code"], equal_to("OK"))
  \<close>
\<close>

definition check_code :: "env \<Rightarrow> pyval \<Rightarrow> error option" where
  "check_code e response_json =
     (case subscript response_json ''data'' of
        Inl err \<Rightarrow> Some err
      | Inr d \<Rightarrow>
          (case subscript d ''code'' of
             Inl err \<Rightarrow> Some err
           | Inr code \<Rightarrow>
               (case int_of e code of
                  Inl err \<Rightarrow>
                    if isinstance_ValueError err
                    then (if code = PStr ''OK'' then None else Some AssertionError)
                    else Some err
                | Inr n \<Rightarrow>
                    (case getattr_UCode e ''OK'' of
                       Inl err \<Rightarrow> Some err
                     | Inr ok \<Rightarrow> if PInt n = ok then None else Some AssertionError))))"

text \<open>
  The block under \<^verbatim>\<open>if not context.tm.has_sdk_connection(sdk_name)\<close>, entered after the
  first poll has answered no: the command is built, the process is started and recorded,
  the connection is awaited, and the transport is initialized. \<^verbatim>\<open>transport\<close> is bound
  only when the name given to the step contained \<^verbatim>\<open>uE\<close>.
\<close>

definition launch_agent ::
  "env \<Rightarrow> context \<Rightarrow> string \<Rightarrow> string \<Rightarrow> string option \<Rightarrow> (outcome \<times> context) option" where
  "launch_agent e ctx ue_number sdk_name transport =
     (let base_sdk_name = base_name e sdk_name in
      case map_of sdk_paths base_sdk_name of
        None \<Rightarrow> Some (Failed ValueError, ctx)
      | Some path \<Rightarrow>
          (case transport of
             None \<Rightarrow> Some (Failed UnboundLocalError, ctx)
           | Some tr \<Rightarrow>
               (case create_command e path tr sdk_name of
                  Inl err \<Rightarrow> Some (Failed err, ctx)
                | Inr run_command \<Rightarrow>
                    (case create_subprocess e run_command of
                       Inl err \<Rightarrow> Some (Failed err, ctx)
                     | Inr process \<Rightarrow>
                         (let ctx1 = ctx\<lparr>spawned := spawned ctx @ [process]\<rparr> in
                          if base_sdk_name \<notin> set [''python'', ''java'', ''cpp'', ''rust'']
                          then Some (Failed ValueError, ctx1)
                          else
                            (let ctx2 = ctx1\<lparr>ues := ues_append (ues ctx1) base_sdk_name process\<rparr> in
                             case wait_for_connection (\<lambda>n. has_sdk_connection e n sdk_name)
                                    (polls ctx2) of
                               None \<Rightarrow> None
                             | Some n \<Rightarrow>
                                 (let ctx3 = ctx2\<lparr>polls := n\<rparr> in
                                  case tracked e ctx3 ue_number of
                                    Inl err \<Rightarrow> Some (Failed err, ctx3)
                                  | Inr (name, tr', uri) \<Rightarrow>
                                      (case request e sdk_name ''initialize_transport'' uri of
                                         Inl err \<Rightarrow> Some (Failed err, ctx3)
                                       | Inr response_json \<Rightarrow>
                                           (case check_code e response_json of
                                              Some err \<Rightarrow> Some (Failed err, ctx3)
                                            | None \<Rightarrow> Some (Passed, ctx3))))))))))"

text \<open>
  The rows of the step's table, each with its columns \<^verbatim>\<open>protobuf_field_names\<close>,
  \<^verbatim>\<open>protobuf_field_values\<close> and \<^verbatim>\<open>protobuf_field_type\<close>:
  \<^verbatim>\<open>
  for row in context.table:
      value = cast(value, row["protobuf_field_type"])
      context.json_dict[field_name] = value
  \<close>
\<close>

fun fill_json_dict :: "env \<Rightarrow> (string \<times> string \<times> string) list \<Rightarrow> pydict \<Rightarrow> outcome \<times> pydict" where
  "fill_json_dict e [] d = (Passed, d)"
| "fill_json_dict e ((field_name, val, field_type) # rows) d =
     (case cast e val field_type True of
        Inl err \<Rightarrow> (Failed err, d)
      | Inr v \<Rightarrow> fill_json_dict e rows (dict_set d field_name v))"

text \<open>
  The rest of the step, from \<^verbatim>\<open>try: context.rust_sender\<close> on: the flag is created unset
  when the context has none, and set when the agent's name contains \<^verbatim>\<open>rust\<close> and the
  command is \<^verbatim>\<open>send\<close>.
\<close>

definition record_sender ::
  "env \<Rightarrow> context \<Rightarrow> (string \<times> string \<times> string) list option \<Rightarrow> string \<Rightarrow> string \<Rightarrow>
   outcome \<times> context" where
  "record_sender e ctx table sdk_name command =
     (let flag = (case rust_sender ctx of None \<Rightarrow> False | Some b \<Rightarrow> b);
          flag' = (if sublist ''rust'' sdk_name \<and> command = ''send'' then True else flag);
          ctx1 = ctx\<lparr>rust_sender := Some flag', ue := Some sdk_name, action := Some command\<rparr>
      in case table of
           None \<Rightarrow> (Passed, ctx1)
         | Some rows \<Rightarrow>
             (case json_dict ctx1 of
                None \<Rightarrow> (Failed AttributeError, ctx1)
              | Some d \<Rightarrow>
                  (case fill_json_dict e rows d of
                     (res, d') \<Rightarrow> (res, ctx1\<lparr>json_dict := Some d'\<rparr>))))"

text \<open>
  \<^verbatim>\<open>create_sdk_data(context, sdk_name, command)\<close>, the step
  \<^verbatim>\<open>"{sdk_name}" creates data for "{command}"\<close>. \<^verbatim>\<open>context.table\<close> is the table the
  runner attaches to the step, or \<^verbatim>\<open>None\<close>.
\<close>

definition create_sdk_data ::
  "env \<Rightarrow> context \<Rightarrow> (string \<times> string \<times> string) list option \<Rightarrow> string \<Rightarrow> string \<Rightarrow>
   (outcome \<times> context) option" where
  "create_sdk_data e ctx table sdk_name command =
     (let ctx0 = ctx\<lparr>json_dict := Some []\<rparr>;
          ue_number = py_replace ''uE'' '''' sdk_name
      in case resolve_ue e ctx0 sdk_name of
           Inl err \<Rightarrow> Some (Failed err, ctx0)
         | Inr (sdk_name', transport) \<Rightarrow>
             (let ctx1 = ctx0\<lparr>polls := Suc (polls ctx0)\<rparr> in
              if has_sdk_connection e (polls ctx0) sdk_name'
              then Some (record_sender e ctx1 table sdk_name' command)
              else
                (case launch_agent e ctx1 ue_number sdk_name' transport of
                   None \<Rightarrow> None
                 | Some (Failed err, ctx2) \<Rightarrow> Some (Failed err, ctx2)
                 | Some (Passed, ctx2) \<Rightarrow> Some (record_sender e ctx2 table sdk_name' command))))"

section \<open>Steps that build the request payload\<close>

text \<open>
  \<^verbatim>\<open>
  def sets_key_to_previous_response(context, key):
      if key not in context.json_dict:
          context.json_dict[key] = context.response_data

  def set_key_to_val(context, key, value):
      if key not in context.json_dict:
          context.json_dict[key] = value

  def set_key_to_bytes(context, key, value):
      if key not in context.json_dict:
          context.json_dict[key] = "BYTES:" + value

  def set_key_to_ue_uri(context, key, ue):
      ue_number = ue.replace("uE", "")
      if key not in context.json_dict:
          context.json_dict[key] = context.ue_tracker[int(ue_number) - 1][2]
  \<close>
\<close>

definition sets_key_to_previous_response :: "context \<Rightarrow> string \<Rightarrow> outcome \<times> context" where
  "sets_key_to_previous_response ctx key =
     (case json_dict ctx of
        None \<Rightarrow> (Failed AttributeError, ctx)
      | Some d \<Rightarrow>
          if key \<notin> dict_keys d then
            (case response_data ctx of
               None \<Rightarrow> (Failed AttributeError, ctx)
             | Some r \<Rightarrow> (Passed, ctx\<lparr>json_dict := Some (dict_set d key r)\<rparr>))
          else (Passed, ctx))"

definition set_key_to_val :: "context \<Rightarrow> string \<Rightarrow> string \<Rightarrow> outcome \<times> context" where
  "set_key_to_val ctx key val =
     (case json_dict ctx of
        None \<Rightarrow> (Failed AttributeError, ctx)
      | Some d \<Rightarrow>
          if key \<notin> dict_keys d
          then (Passed, ctx\<lparr>json_dict := Some (dict_set d key (PStr val))\<rparr>)
          else (Passed, ctx))"

definition set_key_to_bytes :: "context \<Rightarrow> string \<Rightarrow> string \<Rightarrow> outcome \<times> context" where
  "set_key_to_bytes ctx key val =
     (case json_dict ctx of
        None \<Rightarrow> (Failed AttributeError, ctx)
      | Some d \<Rightarrow>
          if key \<notin> dict_keys d
          then (Passed, ctx\<lparr>json_dict := Some (dict_set d key (PStr (''BYTES:'' @ val)))\<rparr>)
          else (Passed, ctx))"

definition set_key_to_ue_uri :: "env \<Rightarrow> context \<Rightarrow> string \<Rightarrow> string \<Rightarrow> outcome \<times> context" where
  "set_key_to_ue_uri e ctx key ue_name =
     (let ue_number = py_replace ''uE'' '''' ue_name in
      case json_dict ctx of
        None \<Rightarrow> (Failed AttributeError, ctx)
      | Some d \<Rightarrow>
          if key \<notin> dict_keys d then
            (case tracked e ctx ue_number of
               Inl err \<Rightarrow> (Failed err, ctx)
             | Inr (name, tr, uri) \<Rightarrow> (Passed, ctx\<lparr>json_dict := Some (dict_set d key uri)\<rparr>))
          else (Passed, ctx))"


section \<open>The validation-result check\<close>

text \<open>
  The step \<^verbatim>\<open>receives validation result as "{expected_result}"\<close> (the first of the two
  functions the source names \<^verbatim>\<open>receive_validation_result\<close>):
  \<^verbatim>\<open>
  def receive_validation_result(context, expected_result):
      if expected_result == "none":
          return
      try:
          expected_result = expected_result.strip()
          actual_val_res = context.response_data["result"]
          assert_that(expected_result, equal_to(actual_val_res))
      except AssertionError:
          raise AssertionError(...)
      except Exception as ae:
          raise ValueError(f"Exception occurred. {ae}")
  \<close>
\<close>

definition receive_validation_result :: "context \<Rightarrow> string \<Rightarrow> outcome \<times> context" where
  "receive_validation_result ctx expected_result =
     (if expected_result = ''none'' then (Passed, ctx)
      else
        (let expected = py_strip expected_result in
         case response_data ctx of
           None \<Rightarrow> (Failed ValueError, ctx)
         | Some r \<Rightarrow>
             (case subscript r ''result'' of
                Inl err \<Rightarrow> (Failed ValueError, ctx)
              | Inr actual_val_res \<Rightarrow>
                  if PStr expected = actual_val_res then (Passed, ctx)
                  else (Failed AssertionError, ctx))))"

section \<open>Response normalizer\<close>

text \<open>
  Both byte-field checks end in
  \<^verbatim>\<open>assert actual.split(b"googleapis.com/")[1] == expected.split(b"googleapis.com/")[1]\<close>.
  \<open>after_marker\<close> is one side of it, \<open>assert_after_marker\<close> the assertion: \<open>None\<close> when
  it holds, the \<^verbatim>\<open>AssertionError\<close> when the two sides differ, the \<^verbatim>\<open>IndexError\<close> when a
  side has no second segment.
\<close>

definition marker :: string where
  "marker = ''googleapis.com/''"

definition after_marker :: "string \<Rightarrow> error + string" where
  "after_marker b = second (py_split marker b)"

definition assert_after_marker :: "string \<Rightarrow> string \<Rightarrow> error option" where
  "assert_after_marker actual expected =
     (case after_marker actual of
        Inl err \<Rightarrow> Some err
      | Inr a \<Rightarrow>
          (case after_marker expected of
             Inl err \<Rightarrow> Some err
           | Inr x \<Rightarrow> if a = x then None else Some AssertionError))"

text \<open>
  The reading of the Rust agent's textual rendering of a byte array:
  \<^verbatim>\<open>
  val.replace('"', "").replace(":", "").replace("\\", "").replace("x", "\\x")
     .replace("}", "").strip()[1:]
  \<close>
\<close>

definition rust_debug_bytes :: "string \<Rightarrow> string" where
  "rust_debug_bytes s =
     drop_first_char (py_strip (py_replace ''}'' ''''
       (py_replace ''x'' [CHR 0x5C, CHR ''x'']
         (py_replace [CHR 0x5C] ''''
           (py_replace '':'' ''''
             (py_replace [CHR 0x22] '''' s))))))"

text \<open>
  A method of \<^verbatim>\<open>str\<close> called with \<^verbatim>\<open>str\<close> arguments (\<^verbatim>\<open>replace\<close>, \<^verbatim>\<open>split\<close>) on a value
  that may not be a \<^verbatim>\<open>str\<close>: bytes refuse the arguments, other values have no such method.
\<close>

fun str_of :: "pyval \<Rightarrow> error + string" where
  "str_of (PStr s) = Inr s"
| "str_of (PBytes b) = Inl TypeError"
| "str_of _ = Inl AttributeError"

text \<open>\<^verbatim>\<open>val.encode("utf-8")\<close>: only a \<^verbatim>\<open>str\<close> has the method.\<close>

fun encode_utf8 :: "pyval \<Rightarrow> error + string" where
  "encode_utf8 (PStr s) = Inr s"
| "encode_utf8 _ = Inl AttributeError"

text \<open>
  \<^verbatim>\<open>receive_value_as_bytes\<close> up to its comparison: the agent is resolved, its last
  \<^verbatim>\<open>on_receive\<close> message is fetched, and \<^verbatim>\<open>val\<close> and \<^verbatim>\<open>rec_field_value\<close> are computed.
  \<^verbatim>\<open>
  if sender_sdk_name == "rust" and not context.rust_sender:
      val = on_receive_msg["data"]["payload"]
      rec_field_value = bytes(val.replace(...)...strip()[1:], "utf-8")
  else:
      val = access_nested_dict(on_receive_msg["data"], field_name)
      if context.rust_sender:
          context.rust_sender = False
          decoded_string = "type.googleapis.com/" + val.split(".com/")[1]
          rec_field_value = bytes(decoded_string, "utf-8")
      else:
          try:
              rec_field_value: bytes = val.encode("utf-8")
          except Exception as e:
              context.logger.info(f"Exception: {e}")
  \<close>
  \<^verbatim>\<open>rec_field_value\<close> stays unbound (\<open>None\<close>) when the last \<^verbatim>\<open>try\<close> swallows an exception.
\<close>

definition on_receive_fields ::
  "env \<Rightarrow> context \<Rightarrow> string \<Rightarrow> string \<Rightarrow> (error + pyval \<times> string option) \<times> context" where
  "on_receive_fields e ctx sender_sdk_name field_name =
     (case resolve_ue e ctx sender_sdk_name of
        Inl err \<Rightarrow> (Inl err, ctx)
      | Inr (sender, tr) \<Rightarrow>
          (case get_onreceive e sender of
             Inl err \<Rightarrow> (Inl err, ctx)
           | Inr on_receive_msg \<Rightarrow>
               (case (if sender = ''rust''
                      then (case rust_sender ctx of
                              None \<Rightarrow> Inl AttributeError
                            | Some flag \<Rightarrow> Inr (\<not> flag))
                      else Inr False) of
                  Inl err \<Rightarrow> (Inl err, ctx)
                | Inr True \<Rightarrow>
                    (case subscript on_receive_msg ''data'' of
                       Inl err \<Rightarrow> (Inl err, ctx)
                     | Inr d \<Rightarrow>
                         (case subscript d ''payload'' of
                            Inl err \<Rightarrow> (Inl err, ctx)
                          | Inr val \<Rightarrow>
                              (case str_of val of
                                 Inl err \<Rightarrow> (Inl err, ctx)
                               | Inr s \<Rightarrow> (Inr (val, Some (rust_debug_bytes s)), ctx))))
                | Inr False \<Rightarrow>
                    (case subscript on_receive_msg ''data'' of
                       Inl err \<Rightarrow> (Inl err, ctx)
                     | Inr d \<Rightarrow>
                         (case access_nested_dict (json_loads e) d field_name of
                            Inl err \<Rightarrow> (Inl err, ctx)
                          | Inr val \<Rightarrow>
                              (case rust_sender ctx of
                                 None \<Rightarrow> (Inl AttributeError, ctx)
                               | Some True \<Rightarrow>
                                   (let ctx' = ctx\<lparr>rust_sender := Some False\<rparr> in
                                    case str_of val of
                                      Inl err \<Rightarrow> (Inl err, ctx')
                                    | Inr s \<Rightarrow>
                                        (case second (py_split ''.com/'' s) of
                                           Inl err \<Rightarrow> (Inl err, ctx')
                                         | Inr t \<Rightarrow>
                                             (Inr (val, Some (''type.googleapis.com/'' @ t)), ctx')))
                               | Some False \<Rightarrow>
                                   (Inr (val, (case encode_utf8 val of
                                                 Inl err \<Rightarrow> None
                                               | Inr b \<Rightarrow> Some b)), ctx)))))))"

text \<open>
  How the two checks re-raise: an \<^verbatim>\<open>AssertionError\<close> stays one, every other exception of
  the comparison becomes a \<^verbatim>\<open>ValueError\<close> (\<^verbatim>\<open>receive_rpc_response_as_bytes\<close> keeps a
  \<^verbatim>\<open>KeyError\<close>). The message of the \<^verbatim>\<open>AssertionError\<close> handler prints the actual value, so
  an \<^verbatim>\<open>AssertionError\<close> that arrives before that variable is bound ends in an
  \<^verbatim>\<open>UnboundLocalError\<close>.
\<close>

fun reraise :: "error option \<Rightarrow> outcome" where
  "reraise None = Passed"
| "reraise (Some err) =
     (if err = AssertionError then Failed AssertionError
      else if err = KeyError then Failed KeyError
      else Failed ValueError)"

definition reraise_value :: "error option \<Rightarrow> outcome" where
  "reraise_value r = (if r = Some KeyError then Failed ValueError else reraise r)"

definition reraise_unbound :: "error \<Rightarrow> error" where
  "reraise_unbound err =
     (if err = AssertionError then UnboundLocalError else ValueError)"

text \<open>
  The handler \<^verbatim>\<open>except AssertionError\<close> of \<^verbatim>\<open>receive_value_as_bytes\<close> formats
  \<^verbatim>\<open>rec_field_value\<close> into its message. When the first assertion fails (the value was
  decoded from base64) and \<^verbatim>\<open>rec_field_value\<close> was never bound, the handler itself ends in
  an \<^verbatim>\<open>UnboundLocalError\<close>.
\<close>

definition reraise_message :: "string option \<Rightarrow> error option \<Rightarrow> outcome" where
  "reraise_message rec_field_value r =
     (if r = Some AssertionError \<and> rec_field_value = None then Failed UnboundLocalError
      else reraise_value r)"

text \<open>
  The step \<^verbatim>\<open>"{sender_sdk_name}" sends onreceive message with field "{field_name}" as
  b"{expected_value}"\<close>:
  \<^verbatim>\<open>
  try:
      expected_value = expected_value.strip()
      ...
      try:
          data_bytes = base64.b64decode(val)
          assert (data_bytes.split(b"googleapis.com/")[1]
                  == expected_value.encode("utf-8").split(b"googleapis.com/")[1])
      except binascii.Error:
          assert (rec_field_value.split(b"googleapis.com/")[1]
                  == expected_value.encode("utf-8").split(b"googleapis.com/")[1])
  except AssertionError:
      raise AssertionError(f"Assertion error. Expected is {expected_value.encode('utf-8')} but "
                           f"received {rec_field_value}")
  except Exception as ae:
      raise ValueError(f"Exception occurred. {ae}")
  \<close>
  In the handler of \<^verbatim>\<open>binascii.Error\<close> an unbound \<^verbatim>\<open>rec_field_value\<close> is an
  \<^verbatim>\<open>UnboundLocalError\<close> that the last handler turns into a \<^verbatim>\<open>ValueError\<close>.
\<close>

definition receive_value_as_bytes ::
  "env \<Rightarrow> context \<Rightarrow> string \<Rightarrow> string \<Rightarrow> string \<Rightarrow> outcome \<times> context" where
  "receive_value_as_bytes e ctx sender_sdk_name field_name expected_value =
     (let expected = py_strip expected_value in
      case on_receive_fields e ctx sender_sdk_name field_name of
        (Inl err, ctx') \<Rightarrow> (Failed (reraise_unbound err), ctx')
      | (Inr (val, rec_field_value), ctx') \<Rightarrow>
          (case b64decode val of
             Inr data_bytes \<Rightarrow>
               (reraise_message rec_field_value (assert_after_marker data_bytes expected), ctx')
           | Inl err \<Rightarrow>
               if err = BinasciiError then
                 (case rec_field_value of
                    None \<Rightarrow> (Failed ValueError, ctx')
                  | Some r \<Rightarrow> (reraise_value (assert_after_marker r expected), ctx'))
               else (Failed ValueError, ctx')))"

text \<open>
  \<^verbatim>\<open>receive_rpc_response_as_bytes\<close> up to the escaping of the actual value:
  \<^verbatim>\<open>
  if sdk_name == "rust":
      actual_value = context.response_data["data"]
      actual_value = bytes(actual_value.split("value")[1].replace(...)...strip()[1:], "utf-8")
  else:
      actual_value: str = access_nested_dict(context.response_data, field_name)
      if context.rust_sender:
          context.rust_sender = False
          actual_value = base64.b64decode(actual_value.encode("utf-8"))
          decoded_string = actual_value.decode("utf-8")
          decoded_string = decoded_string.replace('"', "").replace("\\", "").replace("x", "\\x")[1:]
          actual_value = bytes(decoded_string, "utf-8")
      else:
          actual_value: bytes = actual_value.encode("utf-8")
  \<close>
\<close>

definition rpc_actual ::
  "env \<Rightarrow> context \<Rightarrow> string \<Rightarrow> string \<Rightarrow> (error + string) \<times> context" where
  "rpc_actual e ctx sdk_name field_name =
     (case response_data ctx of
        None \<Rightarrow> (Inl AttributeError, ctx)
      | Some r \<Rightarrow>
          if sdk_name = ''rust'' then
            (case subscript r ''data'' of
               Inl err \<Rightarrow> (Inl err, ctx)
             | Inr actual_value \<Rightarrow>
                 (case str_of actual_value of
                    Inl err \<Rightarrow> (Inl err, ctx)
                  | Inr s \<Rightarrow>
                      (case second (py_split ''value'' s) of
                         Inl err \<Rightarrow> (Inl err, ctx)
                       | Inr t \<Rightarrow> (Inr (rust_debug_bytes t), ctx))))
          else
            (case access_nested_dict (json_loads e) r field_name of
               Inl err \<Rightarrow> (Inl err, ctx)
             | Inr actual_value \<Rightarrow>
                 (case rust_sender ctx of
                    None \<Rightarrow> (Inl AttributeError, ctx)
                  | Some True \<Rightarrow>
                      (let ctx' = ctx\<lparr>rust_sender := Some False\<rparr> in
                       case encode_utf8 actual_value of
                         Inl err \<Rightarrow> (Inl err, ctx')
                       | Inr b \<Rightarrow>
                           (case a2b_base64 0 0 0 [] b of
                              Inl err \<Rightarrow> (Inl err, ctx')
                            | Inr decoded \<Rightarrow>
                                (case utf8_decode decoded of
                                   Inl err \<Rightarrow> (Inl err, ctx')
                                 | Inr decoded_string \<Rightarrow>
                                     (Inr (drop_first_char
                                        (py_replace ''x'' [CHR 0x5C, CHR ''x'']
                                          (py_replace [CHR 0x5C] ''''
                                            (py_replace [CHR 0x22] '''' decoded_string)))),
                                      ctx'))))
                  | Some False \<Rightarrow>
                      (case encode_utf8 actual_value of
                         Inl err \<Rightarrow> (Inl err, ctx)
                       | Inr b \<Rightarrow> (Inr b, ctx)))))"

text \<open>
  The step \<^verbatim>\<open>"{sdk_name}" receives data field "{field_name}" as b"{expected_value}"\<close>:
  \<^verbatim>\<open>
  try:
      ...
      actual_value = codecs.encode(actual_value.decode("utf-8"), "unicode_escape")
      assert (actual_value.split(b"googleapis.com/")[1]
              == expected_value.encode("utf-8").split(b"googleapis.com/")[1])
  except KeyError:
      raise KeyError(f"Key error. {sdk_name} has not received rpc response.")
  except AssertionError:
      raise AssertionError(...)
  except Exception as ae:
      raise ValueError(f"Exception occurred. {ae}")
  \<close>
\<close>

definition rpc_canonical ::
  "env \<Rightarrow> context \<Rightarrow> string \<Rightarrow> string \<Rightarrow> (error + string) \<times> context" where
  "rpc_canonical e ctx sdk_name field_name =
     (case rpc_actual e ctx sdk_name field_name of
        (Inl err, ctx') \<Rightarrow> (Inl err, ctx')
      | (Inr actual_value, ctx') \<Rightarrow>
          (case utf8_decode actual_value of
             Inl err \<Rightarrow> (Inl err, ctx')
           | Inr s \<Rightarrow> (Inr (unicode_escape s), ctx')))"

definition receive_rpc_response_as_bytes ::
  "env \<Rightarrow> context \<Rightarrow> string \<Rightarrow> string \<Rightarrow> string \<Rightarrow> outcome \<times> context" where
  "receive_rpc_response_as_bytes e ctx sdk_name field_name expected_value =
     (case rpc_canonical e ctx sdk_name field_name of
        (Inl err, ctx') \<Rightarrow>
          (if err = KeyError then (Failed KeyError, ctx')
           else (Failed (reraise_unbound err), ctx'))
      | (Inr actual_value, ctx') \<Rightarrow>
          (reraise (assert_after_marker actual_value expected_value), ctx'))"

section \<open>Properties of the validation-result check\<close>

text \<open>
  C10. When the expected result is exactly \<^verbatim>\<open>none\<close>, the check returns at once: it passes
  in every context, whatever the response is and also when there is none, and leaves the
  context as it was.
\<close>

theorem receive_validation_result_none_passes:
  "receive_validation_result ctx ''none'' = (Passed, ctx)"
  by (simp add: receive_validation_result_def)

section \<open>Properties of the payload steps\<close>

text \<open>
  The four steps that set a payload field, as one type, so that a run of them can be
  stated; \<open>payload_value\<close> reads a field of the payload.
\<close>

datatype set_step =
    SetVal string string
  | SetBytes string string
  | SetPrevious string
  | SetUri string string

fun run_set_step :: "env \<Rightarrow> context \<Rightarrow> set_step \<Rightarrow> outcome \<times> context" where
  "run_set_step e ctx (SetVal key val) = set_key_to_val ctx key val"
| "run_set_step e ctx (SetBytes key val) = set_key_to_bytes ctx key val"
| "run_set_step e ctx (SetPrevious key) = sets_key_to_previous_response ctx key"
| "run_set_step e ctx (SetUri key ue_name) = set_key_to_ue_uri e ctx key ue_name"

fun run_set_steps :: "env \<Rightarrow> context \<Rightarrow> set_step list \<Rightarrow> context" where
  "run_set_steps e ctx [] = ctx"
| "run_set_steps e ctx (s # ss) = run_set_steps e (snd (run_set_step e ctx s)) ss"

fun step_key :: "set_step \<Rightarrow> string" where
  "step_key (SetVal key val) = key"
| "step_key (SetBytes key val) = key"
| "step_key (SetPrevious key) = key"
| "step_key (SetUri key ue_name) = key"

definition payload_value :: "context \<Rightarrow> string \<Rightarrow> pyval option" where
  "payload_value ctx key = (case json_dict ctx of None \<Rightarrow> None | Some d \<Rightarrow> map_of d key)"

definition payload_ctx :: "context" where
  "payload_ctx = \<lparr>json_dict = Some [(''attributes.priority'', PStr ''UPRIORITY_CS1'')],
     response_data = Some (PStr ''previous''), rust_sender = None, ue = None, action = None,
     ue_tracker = [(''python'', ''zenoh'', PStr ''//vcu.vin/1/1/8000'')],
     ues = [], spawned = [], polls = 0\<rparr>"

lemma dict_keys_map_of: "key \<in> dict_keys d \<longleftrightarrow> map_of d key \<noteq> None"
  by (simp add: dict_keys_def map_of_eq_None_iff)

lemma set_step_same_key:
  "payload_value ctx (step_key s) \<noteq> None \<Longrightarrow> run_set_step e ctx s = (Passed, ctx)"
  by (cases s)
     (auto simp: payload_value_def dict_keys_map_of set_key_to_val_def set_key_to_bytes_def
        sets_key_to_previous_response_def set_key_to_ue_uri_def split: option.splits)

lemma set_step_keeps_value:
  "payload_value ctx key = Some v \<Longrightarrow> payload_value (snd (run_set_step e ctx s)) key = Some v"
  by (cases s)
     (auto simp: payload_value_def dict_keys_map_of set_key_to_val_def set_key_to_bytes_def
        sets_key_to_previous_response_def set_key_to_ue_uri_def map_of_dict_set
        split: option.splits sum.splits prod.splits)

lemma set_steps_keep_value:
  "payload_value ctx key = Some v \<Longrightarrow> payload_value (run_set_steps e ctx ss) key = Some v"
  by (induction ss arbitrary: ctx) (auto simp: set_step_keeps_value)

text \<open>
  C8. When a key is already present in the request payload, each of the four set steps on
  that key passes and leaves the whole context, and so the payload, unchanged; and after
  any run of set steps, on any keys, the key still holds the value it had.
\<close>

theorem set_steps_first_write_wins:
  assumes "json_dict ctx = Some d" and "key \<in> dict_keys d"
  shows "set_key_to_val ctx key val = (Passed, ctx) \<and>
         set_key_to_bytes ctx key val = (Passed, ctx) \<and>
         sets_key_to_previous_response ctx key = (Passed, ctx) \<and>
         set_key_to_ue_uri e ctx key ue_name = (Passed, ctx) \<and>
         payload_value (run_set_steps e ctx steps) key = map_of d key"
proof -
  from assms obtain v where v: "payload_value ctx key = Some v" "map_of d key = Some v"
    by (auto simp: payload_value_def dict_keys_map_of)
  have "run_set_step e ctx (SetVal key val) = (Passed, ctx)"
    and "run_set_step e ctx (SetBytes key val) = (Passed, ctx)"
    and "run_set_step e ctx (SetPrevious key) = (Passed, ctx)"
    and "run_set_step e ctx (SetUri key ue_name) = (Passed, ctx)"
    using v(1) by (simp_all only: set_step_same_key step_key.simps option.distinct not_False_eq_True)
  with set_steps_keep_value [OF v(1), of e steps] v(2) show ?thesis
    by simp
qed

theorem set_steps_first_write_wins_witness:
  "set_key_to_val payload_ctx ''attributes.priority'' ''UPRIORITY_CS4'' = (Passed, payload_ctx) \<and>
   set_key_to_ue_uri sample_env payload_ctx ''attributes.priority'' ''uE1'' = (Passed, payload_ctx) \<and>
   payload_value
     (run_set_steps sample_env payload_ctx
        [SetBytes ''payload'' ''x'', SetVal ''attributes.priority'' ''UPRIORITY_CS4'',
         SetPrevious ''attributes.priority''])
     ''attributes.priority'' = Some (PStr ''UPRIORITY_CS1'')"
proof -
  have d: "json_dict payload_ctx = Some [(''attributes.priority'', PStr ''UPRIORITY_CS1'')]"
    by (simp add: payload_ctx_def)
  have k: "''attributes.priority'' \<in> dict_keys [(''attributes.priority'', PStr ''UPRIORITY_CS1'')]"
    by (simp add: dict_keys_def)
  from set_steps_first_write_wins [OF d k, of "''UPRIORITY_CS4''" sample_env "''uE1''"
      "[SetBytes ''payload'' ''x'', SetVal ''attributes.priority'' ''UPRIORITY_CS4'',
        SetPrevious ''attributes.priority'']"]
  show ?thesis by simp
qed

section \<open>Properties of the agent launcher\<close>

text \<open>
  An environment in which the agent is not connected at the first two polls, so that the
  step starts it, and a context whose entity table holds one agent.
\<close>

definition launch_env :: env where
  "launch_env = sample_env\<lparr>has_sdk_connection := (\<lambda>n name. 2 \<le> n)\<rparr>"

definition launch_ctx :: "string \<Rightarrow> context" where
  "launch_ctx agent = \<lparr>json_dict = None, response_data = None, rust_sender = None, ue = None,
     action = None, ue_tracker = [(agent, ''zenoh'', PStr ''//vcu.vin/1/1/8000'')],
     ues = [], spawned = [], polls = 0\<rparr>"

text \<open>
  C7 (as stated, refuted). A path that ends in \<^verbatim>\<open>rust_tck\<close> is accepted although it ends
  in neither \<^verbatim>\<open>.jar\<close> nor \<^verbatim>\<open>.py\<close> and names no executable file: \<open>create_command\<close> returns
  the bare path as the command, and the step goes on to start it.
\<close>

theorem create_command_accepts_rust_tck:
  "\<not> suffix ''.jar'' RUST_TA_PATH \<and> \<not> suffix ''.py'' RUST_TA_PATH \<and>
   \<not> access_x_ok launch_env (full_path launch_env RUST_TA_PATH) \<and>
   create_command launch_env RUST_TA_PATH ''zenoh'' ''rust'' =
     Inr [''/up-tck/test_agent/rust/target/debug/rust_tck'',
          ''--transport'', ''zenoh'', ''--sdkname'', ''rust''] \<and>
   (case create_sdk_data launch_env (launch_ctx ''rust'') None ''uE1'' ''send'' of
      None \<Rightarrow> []
    | Some (res, ctx') \<Rightarrow> spawned ctx') =
     [([''/up-tck/test_agent/rust/target/debug/rust_tck'',
        ''--transport'', ''zenoh'', ''--sdkname'', ''rust''], False)]"
  by code_simp

text \<open>
  C7 (amended). For every artifact path that ends in none of \<^verbatim>\<open>.jar\<close>, \<^verbatim>\<open>.py\<close> and
  \<^verbatim>\<open>rust_tck\<close> and does not name an executable file, \<open>create_command\<close> fails with the
  \<^verbatim>\<open>Exception\<close> it raises; and when the step that creates data for an agent builds such a
  command, the step fails with that exception with no process started: the context it
  leaves differs from the one it found only in the emptied payload and the poll count.
\<close>

theorem create_command_rejects_artifact:
  assumes "\<not> suffix ''.jar'' p" and "\<not> suffix ''.py'' p" and "\<not> suffix ''rust_tck'' p"
    and "\<not> access_x_ok e (full_path e p)"
  shows "create_command e p tr name = Inl PyException \<and>
         (resolve_ue e (ctx\<lparr>json_dict := Some []\<rparr>) sdk_name = Inr (name, Some tr) \<and>
          \<not> has_sdk_connection e (polls ctx) name \<and>
          map_of sdk_paths (base_name e name) = Some p \<longrightarrow>
          create_sdk_data e ctx table sdk_name command =
            Some (Failed PyException, ctx\<lparr>json_dict := Some [], polls := Suc (polls ctx)\<rparr>))"
proof -
  have c: "create_command e p tr name = Inl PyException"
    using assms by (simp add: create_command_def)
  have "launch_agent e c' n name (Some tr) = Some (Failed PyException, c')"
    if "map_of sdk_paths (base_name e name) = Some p" for c' n
    using that c by (simp add: launch_agent_def)
  with c show ?thesis
    by (auto simp: create_sdk_data_def Let_def)
qed

theorem create_command_rejects_artifact_witness:
  "create_command launch_env CPP_TA_PATH ''zenoh'' ''cpp'' = Inl PyException \<and>
   create_sdk_data launch_env (launch_ctx ''cpp'') None ''uE1'' ''send'' =
     Some (Failed PyException, (launch_ctx ''cpp'')\<lparr>json_dict := Some [], polls := Suc 0\<rparr>)"
proof -
  have a: "\<not> suffix ''.jar'' CPP_TA_PATH" "\<not> suffix ''.py'' CPP_TA_PATH"
    "\<not> suffix ''rust_tck'' CPP_TA_PATH"
    "\<not> access_x_ok launch_env (full_path launch_env CPP_TA_PATH)"
    by code_simp+
  have r: "resolve_ue launch_env ((launch_ctx ''cpp'')\<lparr>json_dict := Some []\<rparr>) ''uE1'' =
      Inr (''cpp'', Some ''zenoh'')"
    by code_simp
  have n: "\<not> has_sdk_connection launch_env (polls (launch_ctx ''cpp'')) ''cpp''"
    by code_simp
  have m: "map_of sdk_paths (base_name launch_env ''cpp'') = Some CPP_TA_PATH"
    by code_simp
  have p: "polls (launch_ctx ''cpp'') = 0"
    by (simp add: launch_ctx_def)
  from create_command_rejects_artifact [OF a, of "''zenoh''" "''cpp''" "launch_ctx ''cpp''"
      "''uE1''" None "''send''"] r n m p
  show ?thesis by simp
qed

section \<open>Properties of the response normalizer\<close>

text \<open>
  \<open>first_at sep s p q\<close>: the first occurrence of \<open>sep\<close> in \<open>s\<close> comes after \<open>p\<close> and is
  followed by \<open>q\<close>. \<open>segment_after sep s x\<close>: \<open>x\<close> is the text of \<open>s\<close> between the first
  occurrence of \<open>sep\<close> and the next one, or the end of \<open>s\<close> when there is no next one.
  \<open>suffix_following sep s\<close> follows the specification's words: all of \<open>s\<close> after the
  first occurrence of \<open>sep\<close>.

  \<open>value_canonical\<close> is the value that \<^verbatim>\<open>receive_value_as_bytes\<close> compares: the base64
  decoding of \<^verbatim>\<open>val\<close> when it succeeds, \<^verbatim>\<open>rec_field_value\<close> when it raises
  \<^verbatim>\<open>binascii.Error\<close>.

  \<open>google_env val\<close> is an environment whose agents have received a message with the
  field \<^verbatim>\<open>f\<close> set to \<open>val\<close>, \<open>bytes_env\<close> one where the field holds the bytes
  \<^verbatim>\<open>b"dHlwZS5nb29nbGVhcGlzLmNvbS9B"\<close> (the base64 text of \<^verbatim>\<open>type.googleapis.com/A\<close>);
  \<open>google_ctx\<close> is a context with the flag of the Rust sender cleared and a response that
  holds a type URL.
\<close>

definition first_at :: "'a list \<Rightarrow> 'a list \<Rightarrow> 'a list \<Rightarrow> 'a list \<Rightarrow> bool" where
  "first_at sep s p q \<longleftrightarrow> s = p @ sep @ q \<and> \<not> sublist sep (p @ butlast sep)"

definition segment_after :: "'a list \<Rightarrow> 'a list \<Rightarrow> 'a list \<Rightarrow> bool" where
  "segment_after sep s x \<longleftrightarrow>
     (\<exists>p q. first_at sep s p q \<and> ((\<not> sublist sep q \<and> x = q) \<or> (\<exists>r. first_at sep q x r)))"

fun suffix_following :: "'a list \<Rightarrow> 'a list \<Rightarrow> 'a list option" where
  "suffix_following sep [] = None"
| "suffix_following sep (c # cs) =
     (if prefix sep (c # cs) then Some (drop (length sep) (c # cs))
      else suffix_following sep cs)"

definition value_canonical :: "pyval \<Rightarrow> string option \<Rightarrow> error + string" where
  "value_canonical val rec_field_value =
     (case b64decode val of
        Inr data_bytes \<Rightarrow> Inr data_bytes
      | Inl err \<Rightarrow>
          if err = BinasciiError
          then (case rec_field_value of None \<Rightarrow> Inl UnboundLocalError | Some r \<Rightarrow> Inr r)
          else Inl err)"

definition google_env :: "string \<Rightarrow> env" where
  "google_env val = sample_env\<lparr>get_onreceive := (\<lambda>name.
      Inr (PDict [(''data'', PDict [(''f'', PStr val)])]))\<rparr>"

definition bytes_env :: env where
  "bytes_env = sample_env\<lparr>get_onreceive := (\<lambda>name.
      Inr (PDict [(''data'', PDict [(''f'', PBytes ''dHlwZS5nb29nbGVhcGlzLmNvbS9B'')])]))\<rparr>"

definition google_ctx :: "context" where
  "google_ctx = \<lparr>json_dict = None,
     response_data = Some (PDict [(''f'', PStr ''type.googleapis.com/A'')]),
     rust_sender = Some False, ue = None, action = None,
     ue_tracker = [(''python'', ''zenoh'', PStr ''//vcu.vin/1/1/8000'')],
     ues = [], spawned = [], polls = 0\<rparr>"

lemma py_split_absent: "sep \<noteq> [] \<Longrightarrow> \<not> sublist sep s \<Longrightarrow> py_split sep s = [s]"
proof (induction s)
  case Nil
  then show ?case by simp
next
  case (Cons c cs)
  from Cons.prems(2) have "\<not> prefix sep (c # cs)" and "\<not> sublist sep cs"
    by (auto simp: sublist_Cons_right)
  with Cons show ?case by simp
qed

lemma prefix_before_butlast:
  assumes "prefix sep (p @ sep @ q)" and "p \<noteq> []"
  shows "prefix sep (p @ butlast sep)"
proof (cases "sep = []")
  case True
  then show ?thesis by simp
next
  case False
  then have s: "sep = butlast sep @ [last sep]" by simp
  have "prefix (p @ butlast sep) (p @ sep @ q)"
    by (subst (2) s) (simp del: append_butlast_last_id)
  moreover have "length sep \<le> length (p @ butlast sep)"
    using assms(2) False by (cases p) auto
  ultimately show ?thesis
    using assms(1) by (meson prefix_length_prefix)
qed

lemma py_split_first:
  "sep \<noteq> [] \<Longrightarrow> \<not> sublist sep (p @ butlast sep) \<Longrightarrow>
   py_split sep (p @ sep @ q) = p # py_split sep q"
proof (induction p)
  case Nil
  then obtain a as where sep: "sep = a # as" by (cases sep) auto
  then show ?case by simp
next
  case (Cons c p)
  have np: "\<not> prefix sep ((c # p) @ sep @ q)"
  proof
    assume "prefix sep ((c # p) @ sep @ q)"
    then have "prefix sep ((c # p) @ butlast sep)"
      by (rule prefix_before_butlast) simp
    with Cons.prems(2) show False by (auto dest: prefix_imp_sublist)
  qed
  from Cons.prems(2) have "\<not> sublist sep (p @ butlast sep)"
    by (auto simp: sublist_Cons_right)
  with Cons.IH Cons.prems(1) have "py_split sep (p @ sep @ q) = p # py_split sep q" by simp
  with np show ?case by simp
qed

lemma first_occurrence:
  "sublist sep s \<Longrightarrow> sep \<noteq> [] \<Longrightarrow> \<exists>p q. first_at sep s p q"
proof (induction s)
  case Nil
  then show ?case by simp
next
  case (Cons c cs)
  show ?case
  proof (cases "prefix sep (c # cs)")
    case True
    then obtain q where "c # cs = [] @ sep @ q" by (auto simp: prefix_def)
    moreover have "\<not> sublist sep ([] @ butlast sep)"
    proof
      assume "sublist sep ([] @ butlast sep)"
      then have "sublist sep (butlast sep)" by simp
      then have "length sep \<le> length (butlast sep)"
        by (rule sublist_length_le)
      then have "length sep \<le> length sep - 1" by (simp only: length_butlast)
      moreover have "0 < length sep"
        using Cons.prems(2) by simp
      ultimately show False by arith
    qed
    ultimately show ?thesis unfolding first_at_def by blast
  next
    case False
    with Cons.prems(1) have "sublist sep cs" by (simp add: sublist_Cons_right)
    from Cons.IH [OF this Cons.prems(2)] obtain p q where
      cs: "cs = p @ sep @ q" and n: "\<not> sublist sep (p @ butlast sep)"
      unfolding first_at_def by blast
    have "\<not> prefix sep ((c # p) @ butlast sep)"
    proof
      assume a: "prefix sep ((c # p) @ butlast sep)"
      have b: "prefix ((c # p) @ butlast sep) ((c # p) @ sep @ q)"
        using Cons.prems(2) by (metis append_butlast_last_id append.assoc prefixI same_prefix_prefix)
      from prefix_order.trans [OF a b] cs have "prefix sep (c # cs)" by simp
      with False show False ..
    qed
    with n have "\<not> sublist sep ((c # p) @ butlast sep)"
      by (simp add: sublist_Cons_right)
    with cs have "first_at sep (c # cs) (c # p) q"
      by (simp add: first_at_def)
    then show ?thesis by blast
  qed
qed

lemma second_split_absent:
  "sep \<noteq> [] \<Longrightarrow> \<not> sublist sep s \<Longrightarrow> second (py_split sep s) = Inl IndexError"
  by (simp add: py_split_absent)

lemma hd_split_segment:
  assumes "sep \<noteq> []"
  shows "(\<exists>x rest. py_split sep q = x # rest \<and>
            ((\<not> sublist sep q \<and> x = q) \<or> (\<exists>r. first_at sep q x r)))"
proof (cases "sublist sep q")
  case True
  from first_occurrence [OF True assms] obtain x r where f: "first_at sep q x r" by blast
  then have "py_split sep q = x # py_split sep r"
    using assms by (auto simp: first_at_def py_split_first)
  with f show ?thesis by blast
next
  case False
  with assms show ?thesis by (simp add: py_split_absent)
qed

lemma second_split_present:
  assumes "sep \<noteq> []" and "sublist sep s"
  shows "\<exists>x. second (py_split sep s) = Inr x \<and> segment_after sep s x"
proof -
  from first_occurrence [OF assms(2,1)] obtain p q where f: "first_at sep s p q" by blast
  then have sp: "py_split sep s = p # py_split sep q"
    using assms(1) by (auto simp: first_at_def py_split_first)
  from hd_split_segment [OF assms(1), of q] obtain x rest where
    "py_split sep q = x # rest" "(\<not> sublist sep q \<and> x = q) \<or> (\<exists>r. first_at sep q x r)"
    by blast
  with sp f show ?thesis
    unfolding segment_after_def by auto
qed

lemma segment_after_second:
  assumes "sep \<noteq> []" and "segment_after sep s x"
  shows "second (py_split sep s) = Inr x"
proof -
  from assms(2) obtain p q where f: "first_at sep s p q"
    and x: "(\<not> sublist sep q \<and> x = q) \<or> (\<exists>r. first_at sep q x r)"
    unfolding segment_after_def by blast
  from f have sp: "py_split sep s = p # py_split sep q"
    using assms(1) by (auto simp: first_at_def py_split_first)
  from x have "\<exists>rest. py_split sep q = x # rest"
    using assms(1) by (auto simp: py_split_absent first_at_def py_split_first)
  with sp show ?thesis by auto
qed

lemma segment_after_sublist: "segment_after sep s x \<Longrightarrow> sublist sep s"
  by (auto simp: segment_after_def first_at_def sublist_def)

lemma marker_nonempty: "marker \<noteq> []"
  by (simp add: marker_def)

lemma after_marker_Inr_iff: "after_marker s = Inr x \<longleftrightarrow> segment_after marker s x"
proof
  assume a: "after_marker s = Inr x"
  have "sublist marker s"
  proof (rule ccontr)
    assume "\<not> sublist marker s"
    with a show False
      by (simp add: after_marker_def second_split_absent marker_nonempty)
  qed
  from second_split_present [OF marker_nonempty this] a show "segment_after marker s x"
    by (auto simp: after_marker_def)
next
  assume "segment_after marker s x"
  then show "after_marker s = Inr x"
    by (simp add: after_marker_def segment_after_second marker_nonempty)
qed

lemma after_marker_Inl_iff: "after_marker s = Inl err \<longleftrightarrow> err = IndexError \<and> \<not> sublist marker s"
proof (cases "sublist marker s")
  case True
  from second_split_present [OF marker_nonempty True] show ?thesis
    using True by (auto simp: after_marker_def)
next
  case False
  then show ?thesis
    by (auto simp: after_marker_def second_split_absent marker_nonempty)
qed

lemma assert_after_marker_None_iff:
  "assert_after_marker a x = None \<longleftrightarrow>
     (\<exists>seg. segment_after marker a seg \<and> segment_after marker x seg)"
  by (auto simp: assert_after_marker_def after_marker_Inr_iff [symmetric] split: sum.splits)

lemma assert_after_marker_absent:
  "\<not> sublist marker a \<or> \<not> sublist marker x \<Longrightarrow> assert_after_marker a x = Some IndexError"
  by (auto simp: assert_after_marker_def after_marker_Inl_iff split: sum.splits
      dest: after_marker_Inr_iff [THEN iffD1] segment_after_sublist)

lemma receive_value_as_bytes_canonical:
  "receive_value_as_bytes e ctx sender_sdk_name field_name expected_value =
     (case on_receive_fields e ctx sender_sdk_name field_name of
        (Inl err, ctx') \<Rightarrow> (Failed (reraise_unbound err), ctx')
      | (Inr (val, rec_field_value), ctx') \<Rightarrow>
          (case value_canonical val rec_field_value of
             Inl err \<Rightarrow> (Failed ValueError, ctx')
           | Inr a \<Rightarrow>
               (reraise_message rec_field_value (assert_after_marker a (py_strip expected_value)),
                ctx')))"
  by (auto simp: receive_value_as_bytes_def value_canonical_def reraise_message_def Let_def
      split: prod.splits sum.splits option.splits)

lemma reraise_Passed_iff: "reraise r = Passed \<longleftrightarrow> r = None"
  by (cases r) auto

lemma reraise_value_Passed_iff: "reraise_value r = Passed \<longleftrightarrow> r = None"
  by (cases r) (auto simp: reraise_value_def)


lemma assert_after_marker_AssertionError_iff:
  "assert_after_marker a x = Some AssertionError \<longleftrightarrow>
     sublist marker a \<and> sublist marker x \<and>
     \<not> (\<exists>seg. segment_after marker a seg \<and> segment_after marker x seg)"
proof -
  have "assert_after_marker a x = Some AssertionError \<longleftrightarrow>
      (\<exists>s1 s2. after_marker a = Inr s1 \<and> after_marker x = Inr s2 \<and> s1 \<noteq> s2)"
    by (auto simp: assert_after_marker_def split: sum.splits
        dest: after_marker_Inl_iff [THEN iffD1])
  also have "\<dots> \<longleftrightarrow> sublist marker a \<and> sublist marker x \<and>
     \<not> (\<exists>seg. segment_after marker a seg \<and> segment_after marker x seg)"
  proof
    assume "\<exists>s1 s2. after_marker a = Inr s1 \<and> after_marker x = Inr s2 \<and> s1 \<noteq> s2"
    then obtain s1 s2 where s: "after_marker a = Inr s1" "after_marker x = Inr s2" "s1 \<noteq> s2"
      by blast
    then have "sublist marker a" "sublist marker x"
      by (auto simp: after_marker_Inr_iff dest: segment_after_sublist)
    moreover have "\<not> (\<exists>seg. segment_after marker a seg \<and> segment_after marker x seg)"
      using s by (auto simp: after_marker_Inr_iff [symmetric])
    ultimately show "sublist marker a \<and> sublist marker x \<and>
       \<not> (\<exists>seg. segment_after marker a seg \<and> segment_after marker x seg)"
      by blast
  next
    assume r: "sublist marker a \<and> sublist marker x \<and>
       \<not> (\<exists>seg. segment_after marker a seg \<and> segment_after marker x seg)"
    from r second_split_present [OF marker_nonempty, of a]
      second_split_present [OF marker_nonempty, of x]
    obtain s1 s2 where "after_marker a = Inr s1" "segment_after marker a s1"
      "after_marker x = Inr s2" "segment_after marker x s2"
      by (auto simp: after_marker_def)
    with r show "\<exists>s1 s2. after_marker a = Inr s1 \<and> after_marker x = Inr s2 \<and> s1 \<noteq> s2"
      by blast
  qed
  finally show ?thesis .
qed

lemma reraise_value_cases:
  "reraise_value None = Passed"
  "reraise_value (Some AssertionError) = Failed AssertionError"
  "reraise_value (Some IndexError) = Failed ValueError"
  "reraise None = Passed"
  "reraise (Some AssertionError) = Failed AssertionError"
  "reraise (Some IndexError) = Failed ValueError"
  by (simp_all add: reraise_value_def)

lemma assert_after_marker_range:
  "assert_after_marker a x = None \<or> assert_after_marker a x = Some AssertionError \<or>
   assert_after_marker a x = Some IndexError"
  by (auto simp: assert_after_marker_def after_marker_Inl_iff split: sum.splits)

lemma marker_verdict:
  assumes "verdict = reraise_value (assert_after_marker a x) \<or>
           verdict = reraise (assert_after_marker a x)"
  shows "(verdict = Passed \<longleftrightarrow>
            (\<exists>seg. segment_after marker a seg \<and> segment_after marker x seg)) \<and>
         (verdict = Failed AssertionError \<longleftrightarrow>
            sublist marker a \<and> sublist marker x \<and>
            \<not> (\<exists>seg. segment_after marker a seg \<and> segment_after marker x seg)) \<and>
         (verdict = Failed ValueError \<longleftrightarrow> \<not> sublist marker a \<or> \<not> sublist marker x)"
proof -
  have absent: "assert_after_marker a x = Some IndexError \<longleftrightarrow>
      \<not> sublist marker a \<or> \<not> sublist marker x"
    using assert_after_marker_absent [of a x] assert_after_marker_None_iff [of a x]
      assert_after_marker_AssertionError_iff [of a x] assert_after_marker_range [of a x]
    by (auto dest: segment_after_sublist)
  from assert_after_marker_range [of a x] show ?thesis
  proof (elim disjE)
    assume n: "assert_after_marker a x = None"
    with assms have "verdict = Passed" by (auto simp: reraise_value_cases)
    with n absent assert_after_marker_None_iff [of a x]
      assert_after_marker_AssertionError_iff [of a x]
    show ?thesis by auto
  next
    assume n: "assert_after_marker a x = Some AssertionError"
    with assms have "verdict = Failed AssertionError" by (auto simp: reraise_value_cases)
    with n absent assert_after_marker_None_iff [of a x]
      assert_after_marker_AssertionError_iff [of a x]
    show ?thesis by auto
  next
    assume n: "assert_after_marker a x = Some IndexError"
    with assms have "verdict = Failed ValueError" by (auto simp: reraise_value_cases)
    with n absent assert_after_marker_None_iff [of a x]
      assert_after_marker_AssertionError_iff [of a x]
    show ?thesis by auto
  qed
qed

lemma reraise_message_Some [simp]: "reraise_message (Some r) v = reraise_value v"
  by (simp add: reraise_message_def)

lemma a2b_base64_error:
  "a2b_base64 quad_pos leftchar pads bin_data s = Inl err \<Longrightarrow> err = BinasciiError"
  by (induction quad_pos leftchar pads bin_data s rule: a2b_base64.induct)
     (auto split: if_splits option.splits)

lemma b64decode_str_cases:
  "(list_all is_ascii s \<longrightarrow>
      (\<exists>data_bytes. b64decode (PStr s) = Inr data_bytes) \<or>
      b64decode (PStr s) = Inl BinasciiError) \<and>
   (\<not> list_all is_ascii s \<longrightarrow> b64decode (PStr s) = Inl ValueError)"
proof (cases "a2b_base64 0 0 0 [] s")
  case (Inl err)
  with a2b_base64_error [OF Inl] show ?thesis by simp
next
  case (Inr data_bytes)
  then show ?thesis by simp
qed

lemma message_verdict:
  assumes "verdict = reraise_message rec_field_value (assert_after_marker a x)"
  shows "(verdict = Passed \<longleftrightarrow>
            (\<exists>seg. segment_after marker a seg \<and> segment_after marker x seg)) \<and>
         (verdict = Failed AssertionError \<longleftrightarrow>
            rec_field_value \<noteq> None \<and> sublist marker a \<and> sublist marker x \<and>
            \<not> (\<exists>seg. segment_after marker a seg \<and> segment_after marker x seg)) \<and>
         (verdict = Failed UnboundLocalError \<longleftrightarrow>
            rec_field_value = None \<and> sublist marker a \<and> sublist marker x \<and>
            \<not> (\<exists>seg. segment_after marker a seg \<and> segment_after marker x seg)) \<and>
         (verdict = Failed ValueError \<longleftrightarrow> \<not> sublist marker a \<or> \<not> sublist marker x)"
proof -
  note plain = marker_verdict [of "reraise_value (assert_after_marker a x)" a x, simplified]
  show ?thesis
  proof (cases "assert_after_marker a x = Some AssertionError \<and> rec_field_value = None")
    case True
    then have v: "verdict = Failed UnboundLocalError"
      using assms by (simp add: reraise_message_def)
    from True have "reraise_value (assert_after_marker a x) = Failed AssertionError"
      by (simp add: reraise_value_cases)
    with plain True v show ?thesis by auto
  next
    case False
    then have v: "verdict = reraise_value (assert_after_marker a x)"
      using assms by (auto simp: reraise_message_def)
    have u: "reraise_value (assert_after_marker a x) \<noteq> Failed UnboundLocalError"
      using assert_after_marker_range [of a x] by (auto simp: reraise_value_cases)
    have "reraise_value (assert_after_marker a x) = Failed AssertionError \<longleftrightarrow>
        assert_after_marker a x = Some AssertionError"
      using assert_after_marker_range [of a x] by (auto simp: reraise_value_cases)
    with False have "reraise_value (assert_after_marker a x) = Failed AssertionError \<longrightarrow>
        rec_field_value \<noteq> None"
      by simp
    with plain v u show ?thesis by auto
  qed
qed

text \<open>
  C1 (as stated, refuted). The claim says the two sides are compared on the suffixes that
  follow the marker. \<^verbatim>\<open>split(marker)[1]\<close> ends at the next occurrence of the marker, so two
  values that differ after a second marker compare equal: the check passes on
  \<^verbatim>\<open>type.googleapis.com/Agoogleapis.com/B\<close> against \<^verbatim>\<open>googleapis.com/Agoogleapis.com/C\<close>.
\<close>

theorem byte_check_passes_on_different_suffixes:
  "on_receive_fields (google_env ''type.googleapis.com/Agoogleapis.com/B'') google_ctx ''python'' ''f''
     = (Inr (PStr ''type.googleapis.com/Agoogleapis.com/B'',
             Some ''type.googleapis.com/Agoogleapis.com/B''), google_ctx) \<and>
   value_canonical (PStr ''type.googleapis.com/Agoogleapis.com/B'')
     (Some ''type.googleapis.com/Agoogleapis.com/B'') = Inr ''type.googleapis.com/Agoogleapis.com/B'' \<and>
   suffix_following marker ''type.googleapis.com/Agoogleapis.com/B'' = Some ''Agoogleapis.com/B'' \<and>
   suffix_following marker ''googleapis.com/Agoogleapis.com/C'' = Some ''Agoogleapis.com/C'' \<and>
   receive_value_as_bytes (google_env ''type.googleapis.com/Agoogleapis.com/B'') google_ctx
     ''python'' ''f'' ''googleapis.com/Agoogleapis.com/C'' = (Passed, google_ctx)"
  by code_simp

text \<open>
  C1 (amended). In both byte-field checks, once the canonical actual value is computed,
  the step passes exactly when actual and expected value both contain the marker
  \<^verbatim>\<open>googleapis.com/\<close> and agree on the segment between its first occurrence and the next
  one (the whole suffix when the marker occurs once); what precedes the marker is not
  compared. The step fails with a \<^verbatim>\<open>ValueError\<close> exactly when the marker is absent from
  either side, and with the error of the failed assertion exactly when both contain the
  marker and the segments differ: an \<^verbatim>\<open>AssertionError\<close>, but in
  \<^verbatim>\<open>receive_value_as_bytes\<close> an \<^verbatim>\<open>UnboundLocalError\<close> when \<^verbatim>\<open>rec_field_value\<close> was never
  bound (the received value is \<^verbatim>\<open>bytes\<close>, which have no \<^verbatim>\<open>encode\<close> but are decoded from
  base64).
\<close>

theorem byte_checks_compare_marker_segment:
  assumes "on_receive_fields e ctx sender_sdk_name field_name = (Inr (val, rec_field_value), ctx')"
    and "value_canonical val rec_field_value = Inr a"
    and "rpc_canonical e2 ctx2 sdk_name field_name2 = (Inr a2, ctx2')"
  shows "(fst (receive_value_as_bytes e ctx sender_sdk_name field_name x) = Passed \<longleftrightarrow>
            (\<exists>seg. segment_after marker a seg \<and> segment_after marker (py_strip x) seg)) \<and>
         (fst (receive_value_as_bytes e ctx sender_sdk_name field_name x) = Failed AssertionError \<longleftrightarrow>
            rec_field_value \<noteq> None \<and> sublist marker a \<and> sublist marker (py_strip x) \<and>
            \<not> (\<exists>seg. segment_after marker a seg \<and> segment_after marker (py_strip x) seg)) \<and>
         (fst (receive_value_as_bytes e ctx sender_sdk_name field_name x) = Failed UnboundLocalError \<longleftrightarrow>
            rec_field_value = None \<and> sublist marker a \<and> sublist marker (py_strip x) \<and>
            \<not> (\<exists>seg. segment_after marker a seg \<and> segment_after marker (py_strip x) seg)) \<and>
         (fst (receive_value_as_bytes e ctx sender_sdk_name field_name x) = Failed ValueError \<longleftrightarrow>
            \<not> sublist marker a \<or> \<not> sublist marker (py_strip x)) \<and>
         (fst (receive_rpc_response_as_bytes e2 ctx2 sdk_name field_name2 x2) = Passed \<longleftrightarrow>
            (\<exists>seg. segment_after marker a2 seg \<and> segment_after marker x2 seg)) \<and>
         (fst (receive_rpc_response_as_bytes e2 ctx2 sdk_name field_name2 x2) = Failed AssertionError \<longleftrightarrow>
            sublist marker a2 \<and> sublist marker x2 \<and>
            \<not> (\<exists>seg. segment_after marker a2 seg \<and> segment_after marker x2 seg)) \<and>
         (fst (receive_rpc_response_as_bytes e2 ctx2 sdk_name field_name2 x2) = Failed ValueError \<longleftrightarrow>
            \<not> sublist marker a2 \<or> \<not> sublist marker x2)"
proof -
  have v: "fst (receive_value_as_bytes e ctx sender_sdk_name field_name x) =
      reraise_message rec_field_value (assert_after_marker a (py_strip x))"
    using assms(1,2) by (simp add: receive_value_as_bytes_canonical)
  have r: "fst (receive_rpc_response_as_bytes e2 ctx2 sdk_name field_name2 x2) =
      reraise (assert_after_marker a2 x2)"
    using assms(3) by (simp add: receive_rpc_response_as_bytes_def)
  from message_verdict [OF v]
    marker_verdict [of "fst (receive_rpc_response_as_bytes e2 ctx2 sdk_name field_name2 x2)"
      a2 x2] r
  show ?thesis by simp
qed

theorem byte_checks_compare_marker_segment_witness:
  "fst (receive_value_as_bytes (google_env ''type.googleapis.com/A'') google_ctx ''uE1'' ''f''
          '' up://googleapis.com/A '') = Passed \<and>
   fst (receive_rpc_response_as_bytes sample_env google_ctx ''java'' ''f'' ''type.google/A'')
     = Failed ValueError \<and>
   fst (receive_value_as_bytes bytes_env google_ctx ''uE1'' ''f'' ''googleapis.com/B'')
     = Failed UnboundLocalError"
proof -
  have v1: "on_receive_fields (google_env ''type.googleapis.com/A'') google_ctx ''uE1'' ''f'' =
      (Inr (PStr ''type.googleapis.com/A'', Some ''type.googleapis.com/A''), google_ctx)"
    by code_simp
  have v2: "value_canonical (PStr ''type.googleapis.com/A'') (Some ''type.googleapis.com/A'') =
      Inr ''type.googleapis.com/A''"
    by code_simp
  have r: "rpc_canonical sample_env google_ctx ''java'' ''f'' =
      (Inr ''type.googleapis.com/A'', google_ctx)"
    by code_simp
  have "after_marker ''type.googleapis.com/A'' = Inr ''A''"
    and "after_marker (py_strip '' up://googleapis.com/A '') = Inr ''A''"
    by code_simp+
  then have seg: "\<exists>seg. segment_after marker ''type.googleapis.com/A'' seg \<and>
      segment_after marker (py_strip '' up://googleapis.com/A '') seg"
    by (auto simp: after_marker_Inr_iff)
  have absent: "\<not> sublist marker ''type.google/A''"
    by code_simp
  have w1: "on_receive_fields bytes_env google_ctx ''uE1'' ''f'' =
      (Inr (PBytes ''dHlwZS5nb29nbGVhcGlzLmNvbS9B'', None), google_ctx)"
    by code_simp
  have w2: "value_canonical (PBytes ''dHlwZS5nb29nbGVhcGlzLmNvbS9B'') None =
      Inr ''type.googleapis.com/A''"
    by code_simp
  have "after_marker (py_strip ''googleapis.com/B'') = Inr ''B''"
    by code_simp
  then have b: "segment_after marker (py_strip ''googleapis.com/B'') ''B''"
    by (simp add: after_marker_Inr_iff)
  have a: "segment_after marker ''type.googleapis.com/A'' seg \<longleftrightarrow> seg = ''A''" for seg
    using \<open>after_marker ''type.googleapis.com/A'' = Inr ''A''\<close>
    by (auto simp: after_marker_Inr_iff [symmetric])
  have b': "segment_after marker (py_strip ''googleapis.com/B'') seg \<longleftrightarrow> seg = ''B''" for seg
    using \<open>after_marker (py_strip ''googleapis.com/B'') = Inr ''B''\<close>
    by (auto simp: after_marker_Inr_iff [symmetric])
  have differ: "sublist marker ''type.googleapis.com/A'' \<and>
      sublist marker (py_strip ''googleapis.com/B'') \<and>
      \<not> (\<exists>seg. segment_after marker ''type.googleapis.com/A'' seg \<and>
                 segment_after marker (py_strip ''googleapis.com/B'') seg)"
    using a b b' segment_after_sublist [of marker "''type.googleapis.com/A''" "''A''"]
      segment_after_sublist [OF b]
    by auto
  from byte_checks_compare_marker_segment [OF v1 v2 r, of "'' up://googleapis.com/A ''"
      "''type.google/A''"] seg absent
    byte_checks_compare_marker_segment [OF w1 w2 r, of "''googleapis.com/B''"] differ
  show ?thesis by simp
qed

text \<open>
  C2 (as stated, refuted). The claim is about every extracted string. For a string with
  a character outside ASCII, \<^verbatim>\<open>base64.b64decode\<close> raises a plain \<^verbatim>\<open>ValueError\<close>
  (\<^verbatim>\<open>string argument should contain only ASCII characters\<close>), which
  \<^verbatim>\<open>except binascii.Error\<close> does not catch: there is no fallback, and the step fails
  although the UTF-8 encoding of the value agrees with the expected value. The example is
  the value \<^verbatim>\<open>type.googleapis.com/\<close> followed by the letter e with an acute accent (the
  bytes C3 A9), on the path for an agent other than \<^verbatim>\<open>rust\<close> with the flag cleared.
\<close>

theorem receive_value_as_bytes_non_ascii_no_fallback:
  "on_receive_fields (google_env (''type.googleapis.com/'' @ [CHR 0xC3, CHR 0xA9])) google_ctx
     ''uE1'' ''f'' =
     (Inr (PStr (''type.googleapis.com/'' @ [CHR 0xC3, CHR 0xA9]),
           Some (''type.googleapis.com/'' @ [CHR 0xC3, CHR 0xA9])), google_ctx) \<and>
   utf8_valid (''type.googleapis.com/'' @ [CHR 0xC3, CHR 0xA9]) \<and>
   b64decode (PStr (''type.googleapis.com/'' @ [CHR 0xC3, CHR 0xA9])) = Inl ValueError \<and>
   assert_after_marker (''type.googleapis.com/'' @ [CHR 0xC3, CHR 0xA9])
     (py_strip (''googleapis.com/'' @ [CHR 0xC3, CHR 0xA9])) = None \<and>
   receive_value_as_bytes (google_env (''type.googleapis.com/'' @ [CHR 0xC3, CHR 0xA9]))
     google_ctx ''uE1'' ''f'' (''googleapis.com/'' @ [CHR 0xC3, CHR 0xA9]) =
     (Failed ValueError, google_ctx)"
  by code_simp

text \<open>
  C2 (amended). On the path of \<^verbatim>\<open>receive_value_as_bytes\<close> that is taken for an agent other
  than \<^verbatim>\<open>rust\<close> with the sender flag cleared, for an extracted value that is a string:
  when \<^verbatim>\<open>base64.b64decode\<close> succeeds, the decoded bytes are the value compared; when it
  raises \<^verbatim>\<open>binascii.Error\<close>, the UTF-8 encoding of the string is. One of the two happens
  for every string of ASCII characters. For a string with a character outside ASCII the
  decoder raises \<^verbatim>\<open>ValueError\<close> and the step fails with a \<^verbatim>\<open>ValueError\<close>, whatever the
  expected value. \<^verbatim>\<open>"AAECAw=="\<close> decodes to the bytes 0, 1, 2, 3.
\<close>

theorem receive_value_as_bytes_base64_or_utf8:
  assumes "resolve_ue e ctx sender_sdk_name = Inr (sender, tr)"
    and "sender \<noteq> ''rust''"
    and "rust_sender ctx = Some False"
    and "get_onreceive e sender = Inr on_receive_msg"
    and "subscript on_receive_msg ''data'' = Inr d"
    and "access_nested_dict (json_loads e) d field_name = Inr (PStr s)"
  shows "on_receive_fields e ctx sender_sdk_name field_name = (Inr (PStr s, Some s), ctx) \<and>
         (\<forall>data_bytes. b64decode (PStr s) = Inr data_bytes \<longrightarrow>
            value_canonical (PStr s) (Some s) = Inr data_bytes \<and>
            receive_value_as_bytes e ctx sender_sdk_name field_name x =
              (reraise_value (assert_after_marker data_bytes (py_strip x)), ctx)) \<and>
         (b64decode (PStr s) = Inl BinasciiError \<longrightarrow>
            value_canonical (PStr s) (Some s) = Inr s \<and>
            receive_value_as_bytes e ctx sender_sdk_name field_name x =
              (reraise_value (assert_after_marker s (py_strip x)), ctx)) \<and>
         (list_all is_ascii s \<longrightarrow>
            (\<exists>data_bytes. b64decode (PStr s) = Inr data_bytes) \<or>
            b64decode (PStr s) = Inl BinasciiError) \<and>
         (\<not> list_all is_ascii s \<longrightarrow>
            b64decode (PStr s) = Inl ValueError \<and>
            receive_value_as_bytes e ctx sender_sdk_name field_name x = (Failed ValueError, ctx)) \<and>
         b64decode (PStr ''AAECAw=='') = Inr [CHR 0x00, CHR 0x01, CHR 0x02, CHR 0x03]"
proof -
  have f: "on_receive_fields e ctx sender_sdk_name field_name = (Inr (PStr s, Some s), ctx)"
    using assms by (simp add: on_receive_fields_def)
  have ex: "b64decode (PStr ''AAECAw=='') = Inr [CHR 0x00, CHR 0x01, CHR 0x02, CHR 0x03]"
    by code_simp
  have step: "receive_value_as_bytes e ctx sender_sdk_name field_name x =
      (case value_canonical (PStr s) (Some s) of
         Inl err \<Rightarrow> (Failed ValueError, ctx)
       | Inr a \<Rightarrow> (reraise_value (assert_after_marker a (py_strip x)), ctx))"
    using f by (simp add: receive_value_as_bytes_canonical split: sum.split)
  have dec: "\<forall>data_bytes. b64decode (PStr s) = Inr data_bytes \<longrightarrow>
      value_canonical (PStr s) (Some s) = Inr data_bytes"
    by (simp add: value_canonical_def)
  have fall: "b64decode (PStr s) = Inl BinasciiError \<longrightarrow> value_canonical (PStr s) (Some s) = Inr s"
    by (simp add: value_canonical_def)
  have non: "\<not> list_all is_ascii s \<longrightarrow> value_canonical (PStr s) (Some s) = Inl ValueError"
    by (simp add: value_canonical_def)
  from b64decode_str_cases [of s] f ex step dec fall non show ?thesis
    by (auto simp del: b64decode.simps)
qed

theorem receive_value_as_bytes_base64_or_utf8_witness:
  "receive_value_as_bytes (google_env ''dHlwZS5nb29nbGVhcGlzLmNvbS9B'') google_ctx ''uE1'' ''f''
     ''googleapis.com/A'' = (Passed, google_ctx) \<and>
   receive_value_as_bytes (google_env ''type.googleapis.com/A'') google_ctx ''uE1'' ''f''
     ''googleapis.com/A'' = (Passed, google_ctx) \<and>
   receive_value_as_bytes (google_env [CHR 0xC3, CHR 0xA9]) google_ctx ''uE1'' ''f''
     ''googleapis.com/A'' = (Failed ValueError, google_ctx)"
proof -
  have r: "resolve_ue (google_env v) google_ctx ''uE1'' = Inr (''python'', Some ''zenoh'')" for v
    by (simp add: google_env_def) code_simp
  have n: "''python'' \<noteq> ''rust''" by simp
  have fl: "rust_sender google_ctx = Some False" by (simp add: google_ctx_def)
  have g: "get_onreceive (google_env v) ''python'' =
      Inr (PDict [(''data'', PDict [(''f'', PStr v)])])" for v
    by (simp add: google_env_def)
  have d: "subscript (PDict [(''data'', PDict [(''f'', PStr v)])]) ''data'' =
      Inr (PDict [(''f'', PStr v)])" for v
    by simp
  have a: "access_nested_dict (json_loads (google_env v)) (PDict [(''f'', PStr v)]) ''f'' =
      Inr (PStr v)" for v
    by (simp add: access_nested_dict_def)
  have b1: "b64decode (PStr ''dHlwZS5nb29nbGVhcGlzLmNvbS9B'') = Inr ''type.googleapis.com/A''"
    and b2: "b64decode (PStr ''type.googleapis.com/A'') = Inl BinasciiError"
    and b3: "\<not> list_all is_ascii [CHR 0xC3, CHR 0xA9]"
    and b4: "list_all is_ascii ''type.googleapis.com/A''"
    by code_simp+
  have c: "reraise_value (assert_after_marker ''type.googleapis.com/A'' (py_strip ''googleapis.com/A''))
      = Passed"
    by code_simp
  note t1 = receive_value_as_bytes_base64_or_utf8
    [OF r [of "''dHlwZS5nb29nbGVhcGlzLmNvbS9B''"] n fl g [of "''dHlwZS5nb29nbGVhcGlzLmNvbS9B''"]
      d [of "''dHlwZS5nb29nbGVhcGlzLmNvbS9B''"] a [of "''dHlwZS5nb29nbGVhcGlzLmNvbS9B''"],
     where x = "''googleapis.com/A''"]
  note t2 = receive_value_as_bytes_base64_or_utf8
    [OF r [of "''type.googleapis.com/A''"] n fl g [of "''type.googleapis.com/A''"]
      d [of "''type.googleapis.com/A''"] a [of "''type.googleapis.com/A''"],
     where x = "''googleapis.com/A''"]
  note t3 = receive_value_as_bytes_base64_or_utf8
    [OF r [of "[CHR 0xC3, CHR 0xA9]"] n fl g [of "[CHR 0xC3, CHR 0xA9]"]
      d [of "[CHR 0xC3, CHR 0xA9]"] a [of "[CHR 0xC3, CHR 0xA9]"],
     where x = "''googleapis.com/A''"]
  from t1 b1 have "receive_value_as_bytes (google_env ''dHlwZS5nb29nbGVhcGlzLmNvbS9B'') google_ctx
      ''uE1'' ''f'' ''googleapis.com/A'' =
      (reraise_value (assert_after_marker ''type.googleapis.com/A'' (py_strip ''googleapis.com/A'')),
       google_ctx)"
    by blast
  moreover from t2 b2 b4 have "receive_value_as_bytes (google_env ''type.googleapis.com/A'') google_ctx
      ''uE1'' ''f'' ''googleapis.com/A'' =
      (reraise_value (assert_after_marker ''type.googleapis.com/A'' (py_strip ''googleapis.com/A'')),
       google_ctx)"
    by blast
  moreover from t3 b3 have "receive_value_as_bytes (google_env [CHR 0xC3, CHR 0xA9]) google_ctx
      ''uE1'' ''f'' ''googleapis.com/A'' = (Failed ValueError, google_ctx)"
    by blast
  ultimately show ?thesis
    by (simp only: c simp_thms)
qed

section \<open>Properties of the flag of the Rust sender\<close>

text \<open>
  The steps of a scenario as one type, and a run of them from a context; a run goes on
  whatever the outcome of a step, so that it covers every prefix of a scenario. Of the
  steps, \<^verbatim>\<open>create_sdk_data\<close> is the only one that assigns \<^verbatim>\<open>True\<close> to
  \<^verbatim>\<open>context.rust_sender\<close>, and the two byte-field checks are the only ones that assign
  \<^verbatim>\<open>False\<close> to a flag that is set.

  \<open>quirky_send\<close>: the step creates data for an agent whose name contains \<^verbatim>\<open>rust\<close>, with
  the command \<^verbatim>\<open>send\<close>.

  \<open>received_field\<close> is \<^verbatim>\<open>access_nested_dict(on_receive_msg["data"], field_name)\<close> of
  \<^verbatim>\<open>receive_value_as_bytes\<close> with the lookups before it, \<open>response_field\<close> is
  \<^verbatim>\<open>access_nested_dict(context.response_data, field_name)\<close> of
  \<^verbatim>\<open>receive_rpc_response_as_bytes\<close>.

  \<open>reaches_flag_test\<close>: the check gets as far as its test \<^verbatim>\<open>if context.rust_sender:\<close>.
  \<^verbatim>\<open>receive_value_as_bytes\<close> does when it does not take the branch of
  \<^verbatim>\<open>sender_sdk_name == "rust" and not context.rust_sender\<close> and obtains the field;
  \<^verbatim>\<open>receive_rpc_response_as_bytes\<close> does for an agent other than \<^verbatim>\<open>rust\<close> when it obtains
  the field.

  \<open>comparison_reads_flag\<close>: the check evaluates \<^verbatim>\<open>context.rust_sender\<close> at all. For the
  agent \<^verbatim>\<open>rust\<close>, \<^verbatim>\<open>receive_value_as_bytes\<close> does so in
  \<^verbatim>\<open>sender_sdk_name == "rust" and not context.rust_sender\<close>, as soon as the message of the
  agent is fetched and before the field is looked up.

  \<open>extra_passes\<close> counts the steps of a run that reach the test with the flag set.
  \<open>reinterpret_response\<close> is
  \<^verbatim>\<open>decoded_string.replace('"', "").replace("\\", "").replace("x", "\\x")[1:]\<close>.
\<close>

datatype step =
    CreateData "(string \<times> string \<times> string) list option" string string
  | SetKey set_step
  | SendRequest string
  | ValidationResult string
  | ValueAsBytes string string string
  | RpcAsBytes string string string











































end
